theory Spec2Isabelle
  imports Main "HOL-Library.AList"
begin

section \<open>The consent engine of cookie-consent.js\<close>

text \<open>
  A shallow embedding of \<^verbatim>\<open>src/assets/consent.js\<close>: the module-level state of the
  \<^verbatim>\<open>CookieConsent\<close> closure together with the parts of the browser it reads and writes
  (\<^verbatim>\<open>localStorage\<close>, \<^verbatim>\<open>document.cookie\<close>, the script elements of the document, the clock
  and the host name). Every function of the source that the specification talks about is a
  function of the state; an exception that the source catches is a \<open>None\<close> that the caller
  handles in the branch where the source has its \<^verbatim>\<open>catch\<close>, and an exception that the source
  does not catch ends the function with the state as it is at that moment (\<open>Throws\<close>).
\<close>

subsection \<open>JavaScript values\<close>

text \<open>
  The values that can reach the engine: what \<^verbatim>\<open>JSON.parse\<close> returns, plus \<^verbatim>\<open>undefined\<close>.
  An object is the list of its own enumerable properties in enumeration order. Numbers are
  the integers (the only number the source produces is \<^verbatim>\<open>Date.now()\<close>).
\<close>

datatype jsval =
    JUndefined
  | JNull
  | JBool bool
  | JNum int
  | JStr string
  | JArr "jsval list"
  | JObj "(string \<times> jsval) list"

text \<open>\<^verbatim>\<open>if (v)\<close>, \<^verbatim>\<open>!v\<close>, \<^verbatim>\<open>a && b\<close>: the truth value of a JavaScript value.\<close>

fun truthy :: "jsval \<Rightarrow> bool" where
  "truthy JUndefined = False"
| "truthy JNull = False"
| "truthy (JBool b) = b"
| "truthy (JNum n) = (n \<noteq> 0)"
| "truthy (JStr s) = (s \<noteq> [])"
| "truthy (JArr xs) = True"
| "truthy (JObj ps) = True"

text \<open>Reading a property of \<^verbatim>\<open>null\<close> or \<^verbatim>\<open>undefined\<close> throws a TypeError.\<close>

fun nullish :: "jsval \<Rightarrow> bool" where
  "nullish JUndefined = True"
| "nullish JNull = True"
| "nullish v = False"

text \<open>The decimal name of an array index, as in the property key \<^verbatim>\<open>"10"\<close>.\<close>

fun index_key :: "nat \<Rightarrow> string" where
  "index_key n =
     (if n < 10 then [char_of (48 + n)]
      else index_key (n div 10) @ [char_of (48 + n mod 10)])"

declare index_key.simps [simp del]

text \<open>
  \<^verbatim>\<open>v[k]\<close> for a value \<open>v\<close> that is neither \<^verbatim>\<open>null\<close> nor \<^verbatim>\<open>undefined\<close>. The lookup is among the
  own properties: keys that name a member inherited from a prototype (\<^verbatim>\<open>toString\<close>,
  \<^verbatim>\<open>constructor\<close>, ...) are not category keys and are outside the model.
\<close>

fun member_of :: "jsval \<Rightarrow> string \<Rightarrow> jsval" where
  "member_of (JObj ps) k = (case map_of ps k of Some v \<Rightarrow> v | None \<Rightarrow> JUndefined)"
| "member_of (JArr xs) k =
     (if k = ''length'' then JNum (int (length xs))
      else case find (\<lambda>i. index_key i = k) [0..<length xs] of
             Some i \<Rightarrow> xs ! i
           | None \<Rightarrow> JUndefined)"
| "member_of (JStr s) k =
     (if k = ''length'' then JNum (int (length s))
      else case find (\<lambda>i. index_key i = k) [0..<length s] of
             Some i \<Rightarrow> JStr [s ! i]
           | None \<Rightarrow> JUndefined)"
| "member_of v k = JUndefined"

text \<open>\<^verbatim>\<open>Object.entries(v)\<close> for a value \<open>v\<close> that is neither \<^verbatim>\<open>null\<close> nor \<^verbatim>\<open>undefined\<close>.\<close>

fun Object_entries :: "jsval \<Rightarrow> (string \<times> jsval) list" where
  "Object_entries (JObj ps) = ps"
| "Object_entries (JArr xs) = map (\<lambda>i. (index_key i, xs ! i)) [0..<length xs]"
| "Object_entries (JStr s) = map (\<lambda>i. (index_key i, JStr [s ! i])) [0..<length s]"
| "Object_entries v = []"

text \<open>
  \<^verbatim>\<open>Object.fromEntries\<close> and \<^verbatim>\<open>Object.assign\<close> set one property after the other: an
  existing key keeps its place and takes the new value, a new key goes to the end
  (\<^const>\<open>AList.update\<close>).
\<close>

definition Object_fromEntries :: "(string \<times> 'v) list \<Rightarrow> (string \<times> 'v) list" where
  "Object_fromEntries es = fold (\<lambda>(k, v) obj. AList.update k v obj) es []"

definition Object_assign :: "(string \<times> 'v) list \<Rightarrow> (string \<times> 'v) list \<Rightarrow> (string \<times> 'v) list" where
  "Object_assign target source = fold (\<lambda>(k, v) obj. AList.update k v obj) source target"

subsection \<open>Stored text\<close>

text \<open>
  \<^verbatim>\<open>JSON.stringify\<close>, \<^verbatim>\<open>JSON.parse\<close>, \<^verbatim>\<open>encodeURIComponent\<close> and \<^verbatim>\<open>decodeURIComponent\<close> belong
  to the platform, not to the repository. A stored string is represented by what the
  platform's parser makes of it: the empty string, a string that \<^verbatim>\<open>JSON.parse\<close> rejects,
  or a string that it accepts together with the value it yields.
\<close>

datatype raw = Raw_empty | Raw_bad | Raw_json jsval

text \<open>
  What \<^verbatim>\<open>JSON.stringify\<close> keeps of a value: a property whose value is \<^verbatim>\<open>undefined\<close> is
  dropped, an \<^verbatim>\<open>undefined\<close> array element becomes \<^verbatim>\<open>null\<close>.
\<close>

fun to_json :: "jsval \<Rightarrow> jsval" where
  "to_json (JObj ps) =
     JObj (map (\<lambda>(k, v). (k, to_json v)) (filter (\<lambda>(k, v). v \<noteq> JUndefined) ps))"
| "to_json (JArr xs) = JArr (map (\<lambda>v. if v = JUndefined then JNull else to_json v) xs)"
| "to_json v = v"

text \<open>\<^verbatim>\<open>JSON.stringify\<close> of an object literal with the given properties.\<close>

definition JSON_stringify :: "(string \<times> jsval) list \<Rightarrow> raw" where
  "JSON_stringify props = Raw_json (to_json (JObj props))"

text \<open>\<^verbatim>\<open>JSON.parse\<close>; \<open>None\<close> is the SyntaxError.\<close>

fun JSON_parse :: "raw \<Rightarrow> jsval option" where
  "JSON_parse (Raw_json v) = Some v"
| "JSON_parse t = None"

text \<open>
  A cookie value is represented by what \<^verbatim>\<open>decodeURIComponent\<close> makes of it: the text it
  decodes to, or a malformed escape sequence (URIError).
\<close>

datatype cookie_value = Encoded raw | Malformed

definition encodeURIComponent :: "raw \<Rightarrow> cookie_value" where
  "encodeURIComponent t = Encoded t"

fun decodeURIComponent :: "cookie_value \<Rightarrow> raw option" where
  "decodeURIComponent (Encoded t) = Some t"
| "decodeURIComponent Malformed = None"

subsection \<open>The state of the page\<close>

text \<open>
  A category definition as in \<^verbatim>\<open>CATEGORIES\<close>. A definition merged in by \<^verbatim>\<open>init\<close> may leave
  \<^verbatim>\<open>required\<close> or \<^verbatim>\<open>default\<close> out, hence \<open>jsval\<close> (\<open>JUndefined\<close> when absent).
\<close>

record category =
  label :: string
  description :: string
  required :: jsval
  dflt :: jsval

text \<open>The argument of \<^verbatim>\<open>init\<close>; \<open>None\<close> is an absent property.\<close>

record options =
  categories :: "(string \<times> category) list option"
  cookieMap :: "(string \<times> string list) list option"

text \<open>A script element: its attributes in order and its text content.\<close>

record script =
  attributes :: "(string \<times> string) list"
  textContent :: string

text \<open>
  One assignment to \<^verbatim>\<open>document.cookie\<close>, the string
  \<^verbatim>\<open>name=value;expires=...;tail\<close>: the expiry in milliseconds since the epoch, the tail
  as the source writes it.
\<close>

record cookie =
  ck_name :: string
  ck_value :: cookie_value
  ck_expires :: nat
  ck_tail :: string

datatype ui_event = Banner_shown | Banner_deferred

text \<open>
  The closure's variables (\<open>CATEGORIES\<close>, \<open>COOKIE_MAP\<close>, \<open>consent\<close>; \<open>CONSENT_VERSION\<close> is the
  constant compiled into the script that runs) and the browser around them.
  \<^item> \<open>localStorage\<close> is \<open>None\<close> when every access to it throws (storage disabled);
    \<open>quota_exceeded\<close> says that \<^verbatim>\<open>setItem\<close> throws.
  \<^item> \<open>cookies\<close> is the cookie jar that \<^verbatim>\<open>document.cookie\<close> reads, by name; \<open>cookie_writes\<close>
    records every assignment to \<^verbatim>\<open>document.cookie\<close>.
  \<^item> \<open>scripts\<close> are the script elements of the document in document order; \<open>activated\<close>
    records every element that \<^verbatim>\<open>replaceChild\<close> has put in, in order.
  \<^item> \<open>events\<close> records the \<^verbatim>\<open>detail\<close> of every \<^verbatim>\<open>cc:consent\<close> event dispatched.
  \<^item> \<open>loading\<close> is \<^verbatim>\<open>document.readyState === 'loading'\<close>; \<open>ui\<close> records the banner.
  \<^item> \<open>reload_requested\<close> says that \<^verbatim>\<open>location.reload()\<close> has been called on this page.
\<close>

record state =
  CONSENT_VERSION :: string
  CATEGORIES :: "(string \<times> category) list"
  COOKIE_MAP :: "(string \<times> string list) list"
  consent :: jsval
  localStorage :: "(string \<rightharpoonup> raw) option"
  quota_exceeded :: bool
  cookies :: "string \<rightharpoonup> cookie_value"
  cookie_writes :: "cookie list"
  hostname :: string
  now :: nat
  scripts :: "script list"
  activated :: "script list"
  events :: "jsval list"
  loading :: bool
  ui :: "ui_event list"
  reload_requested :: bool

text \<open>
  How a function of the engine ends: it returns, or an exception leaves it. Either way
  there is the state that it leaves behind.
\<close>

datatype error = SyntaxError

datatype outcome = Returns state | Throws error state

fun after :: "outcome \<Rightarrow> state" where
  "after (Returns st) = st"
| "after (Throws e st) = st"

fun returns :: "outcome \<Rightarrow> bool" where
  "returns (Returns st) = True"
| "returns (Throws e st) = False"

definition STORAGE_KEY :: string where
  "STORAGE_KEY = ''cookie_consent''"

definition builtin_VERSION :: string where
  "builtin_VERSION = ''2''"

definition builtin_CATEGORIES :: "(string \<times> category) list" where
  "builtin_CATEGORIES =
     [(''necessary'',
         \<lparr>label = ''Necessary'',
          description = ''Required for the website to function. Cannot be disabled.'',
          required = JBool True, dflt = JBool True\<rparr>),
      (''analytics'',
         \<lparr>label = ''Analytics'',
          description = ''Help us understand how visitors interact with the site (e.g. Google Analytics).'',
          required = JBool False, dflt = JBool False\<rparr>),
      (''marketing'',
         \<lparr>label = ''Marketing'',
          description = ''Used to deliver relevant ads and track campaign effectiveness.'',
          required = JBool False, dflt = JBool False\<rparr>),
      (''preferences'',
         \<lparr>label = ''Preferences'',
          description = ''Remember settings like language and theme across visits.'',
          required = JBool False, dflt = JBool False\<rparr>)]"

definition builtin_COOKIE_MAP :: "(string \<times> string list) list" where
  "builtin_COOKIE_MAP =
     [(''analytics'', [''_ga'', ''_gid'', ''_gat'', ''_gat_gtag'', ''__hstc'', ''hubspotutk'',
                       ''_hjid'', ''_hjSessionUser'']),
      (''marketing'', [''_fbp'', ''_fbc'', ''fr'', ''tr'', ''__gads'']),
      (''preferences'', [''lang'', ''theme'', ''currency''])]"

subsection \<open>The browser's stores\<close>

text \<open>\<^verbatim>\<open>localStorage.setItem\<close>, \<^verbatim>\<open>getItem\<close>, \<^verbatim>\<open>removeItem\<close>; \<open>None\<close> is the exception.\<close>

definition localStorage_setItem :: "string \<Rightarrow> raw \<Rightarrow> state \<Rightarrow> state option" where
  "localStorage_setItem k v st =
     (case localStorage st of
        None \<Rightarrow> None
      | Some items \<Rightarrow>
          if quota_exceeded st then None
          else Some (st\<lparr>localStorage := Some (items(k \<mapsto> v))\<rparr>))"

definition localStorage_getItem :: "string \<Rightarrow> state \<Rightarrow> raw option option" where
  "localStorage_getItem k st =
     (case localStorage st of None \<Rightarrow> None | Some items \<Rightarrow> Some (items k))"

definition localStorage_removeItem :: "string \<Rightarrow> state \<Rightarrow> state option" where
  "localStorage_removeItem k st =
     (case localStorage st of
        None \<Rightarrow> None
      | Some items \<Rightarrow> Some (st\<lparr>localStorage := Some (items(k := None))\<rparr>))"

text \<open>
  \<^verbatim>\<open>document.cookie = ...\<close>: a cookie whose expiry has passed is removed from the jar, any
  other is stored under its name. The assignment never throws. The jar has one cookie per
  name: the cookies that the engine stores all have the root path and no domain, so that
  the name identifies them. The tail of an assignment is kept in \<open>cookie_writes\<close>; whether a
  deletion with a given tail reaches a cookie that some other script has set is not
  something the engine can know, and no statement below depends on it.
\<close>

definition document_cookie_assign :: "cookie \<Rightarrow> state \<Rightarrow> state" where
  "document_cookie_assign c st =
     st\<lparr>cookies := (if ck_expires c \<le> now st then (cookies st)(ck_name c := None)
                    else (cookies st)(ck_name c \<mapsto> ck_value c)),
        cookie_writes := cookie_writes st @ [c]\<rparr>"

text \<open>
  \<^verbatim>\<open>document.cookie.match(new RegExp(`(?:^|; )${k}=([^;]*)`))\<close>: the value of the cookie
  named \<open>k\<close>, \<open>None\<close> when there is no match.
\<close>

definition document_cookie_match :: "string \<Rightarrow> state \<Rightarrow> cookie_value option" where
  "document_cookie_match k st = cookies st k"

subsection \<open>Persistence\<close>

definition save :: "jsval \<Rightarrow> state \<Rightarrow> state" where
  "save prefs st =
     (let payload = JSON_stringify
            [(''version'', JStr (CONSENT_VERSION st)), (''prefs'', prefs),
             (''ts'', JNum (int (now st)))]
      in case localStorage_setItem STORAGE_KEY payload st of
           Some st' \<Rightarrow> st'
         | None \<Rightarrow>
             (let exp = now st + 365 * 86400000
              in document_cookie_assign
                   \<lparr>ck_name = STORAGE_KEY, ck_value = encodeURIComponent payload,
                    ck_expires = exp, ck_tail = ''path=/;SameSite=Lax''\<rparr> st))"

text \<open>
  The two lines \<^verbatim>\<open>const d = JSON.parse(...); if (d.version === CONSENT_VERSION) return d.prefs;\<close>
  that \<^verbatim>\<open>load\<close> runs on either backend: \<open>Some\<close> of the value returned, \<open>None\<close> when the
  parse throws, when \<^verbatim>\<open>d.version\<close> throws, or when the versions differ.
\<close>

definition stored_prefs :: "string \<Rightarrow> raw \<Rightarrow> jsval option" where
  "stored_prefs version t =
     (case JSON_parse t of
        None \<Rightarrow> None
      | Some d \<Rightarrow>
          if nullish d then None
          else if member_of d ''version'' = JStr version then Some (member_of d ''prefs'')
          else None)"

text \<open>The first \<^verbatim>\<open>try\<close> block of \<^verbatim>\<open>load\<close>: \<open>Some\<close> of the value it returns, \<open>None\<close> when it is left
  without a return (no item, an empty item, an exception, another version).\<close>

definition load_primary :: "state \<Rightarrow> jsval option" where
  "load_primary st =
     (case localStorage_getItem STORAGE_KEY st of
        None \<Rightarrow> None
      | Some None \<Rightarrow> None
      | Some (Some t) \<Rightarrow>
          if t = Raw_empty then None else stored_prefs (CONSENT_VERSION st) t)"

text \<open>The cookie block of \<^verbatim>\<open>load\<close>, in the same way.\<close>

definition load_fallback :: "state \<Rightarrow> jsval option" where
  "load_fallback st =
     (case document_cookie_match STORAGE_KEY st of
        None \<Rightarrow> None
      | Some m \<Rightarrow>
          (case decodeURIComponent m of
             None \<Rightarrow> None
           | Some t \<Rightarrow> stored_prefs (CONSENT_VERSION st) t))"

definition load :: "state \<Rightarrow> jsval" where
  "load st =
     (case load_primary st of
        Some prefs \<Rightarrow> prefs
      | None \<Rightarrow> (case load_fallback st of Some prefs \<Rightarrow> prefs | None \<Rightarrow> JNull))"

subsection \<open>Script activation\<close>

definition getAttribute :: "script \<Rightarrow> string \<Rightarrow> string option" where
  "getAttribute el n = map_of (attributes el) n"

definition setAttribute :: "string \<Rightarrow> string \<Rightarrow> script \<Rightarrow> script" where
  "setAttribute n v el = el\<lparr>attributes := AList.update n v (attributes el)\<rparr>"

text \<open>\<^verbatim>\<open>document.createElement('script')\<close>.\<close>

definition createElement_script :: script where
  "createElement_script = \<lparr>attributes = [], textContent = []\<rparr>"

text \<open>
  An inert declaration of a category: a script element whose type is \<^verbatim>\<open>text/plain\<close> and whose
  \<^verbatim>\<open>data-cookie-category\<close> is the key.
\<close>

definition inert :: "string \<Rightarrow> script \<Rightarrow> bool" where
  "inert category el \<longleftrightarrow>
     getAttribute el ''type'' = Some ''text/plain'' \<and>
     getAttribute el ''data-cookie-category'' = Some category"

text \<open>
  The source pastes the key into the selector
  \<^verbatim>\<open>script[type="text/plain"][data-cookie-category="${category}"]\<close> without escaping it. A
  key stands for itself between the quotes as long as it has no double quote, no
  backslash and no line break (line feed, form feed, carriage return) in it; for such a
  key the selector matches the inert declarations of the category. With one of these
  characters in the key the text between the quotes is no longer the key. The model has
  \<^verbatim>\<open>querySelectorAll\<close> reject every such selector with a SyntaxError, as the browser does for
  \<^verbatim>\<open>a"b\<close>. It does not follow a key whose escapes or quotes make the pasted text a selector
  of its own; the statements speak of a rejection only for the keys of \<open>breaks_selector\<close>
  (below), and of a selection only for the keys of \<open>plain_key\<close>.
\<close>

definition plain_key :: "string \<Rightarrow> bool" where
  "plain_key category \<longleftrightarrow>
     set category \<inter> {CHR 0x22, CHR 0x5C, CHR 0x0A, CHR 0x0C, CHR 0x0D} = {}"

definition querySelectorAll :: "string \<Rightarrow> state \<Rightarrow> error + script list" where
  "querySelectorAll category st =
     (if plain_key category then Inr (filter (inert category) (scripts st))
      else Inl SyntaxError)"

text \<open>
  The callback of \<^verbatim>\<open>Array.from(el.attributes).forEach\<close>: an attribute \<open>a\<close> is its name and its
  value.
\<close>

definition copy_attribute :: "string \<times> string \<Rightarrow> script \<Rightarrow> script" where
  "copy_attribute a s =
     (if fst a = ''type'' then s
      else if fst a = ''data-src'' then setAttribute ''src'' (snd a) s
      else setAttribute (fst a) (snd a) s)"

text \<open>The body of the \<^verbatim>\<open>forEach\<close> in \<^verbatim>\<open>activateScripts\<close>: the element \<open>s\<close> that replaces \<open>el\<close>.\<close>

definition activate :: "script \<Rightarrow> script" where
  "activate el =
     (let s = fold copy_attribute (attributes el) createElement_script;
          s = setAttribute ''type'' ''text/javascript'' s
      in if (case getAttribute el ''data-src'' of None \<Rightarrow> True | Some v \<Rightarrow> v = [])
         then s\<lparr>textContent := textContent el\<rparr>
         else s)"

text \<open>
  The \<^verbatim>\<open>forEach\<close> of \<^verbatim>\<open>activateScripts\<close> over the elements selected: each is replaced where
  it stands by its active counterpart. \<^verbatim>\<open>querySelectorAll\<close> returns a static list, so the
  elements selected are those that match before the first replacement.
\<close>

definition replace_selected :: "script list \<Rightarrow> state \<Rightarrow> state" where
  "replace_selected selected st =
     st\<lparr>scripts := map (\<lambda>el. if el \<in> set selected then activate el else el) (scripts st),
        activated := activated st @ map activate selected\<rparr>"

definition activateScripts :: "string \<Rightarrow> state \<Rightarrow> outcome" where
  "activateScripts category st =
     (case querySelectorAll category st of
        Inl e \<Rightarrow> Throws e st
      | Inr selected \<Rightarrow> Returns (replace_selected selected st))"

subsection \<open>Cookie cleanup\<close>

text \<open>The cookie string \<^verbatim>\<open>`${name}=;expires=Thu,01 Jan 1970 00:00:00 GMT;${tail}`\<close>.\<close>

definition expired_cookie :: "string \<Rightarrow> string \<Rightarrow> cookie" where
  "expired_cookie name tail =
     \<lparr>ck_name = name, ck_value = Encoded Raw_empty, ck_expires = 0, ck_tail = tail\<rparr>"

definition tails :: "state \<Rightarrow> string list" where
  "tails st =
     [''path=/'', ''path=/;domain='' @ hostname st, ''path=/;domain=.'' @ hostname st]"

definition deleteCookies :: "string \<Rightarrow> state \<Rightarrow> state" where
  "deleteCookies category st =
     fold (\<lambda>name s. fold (\<lambda>tail s'. document_cookie_assign (expired_cookie name tail) s')
                       (tails s) s)
          (case map_of (COOKIE_MAP st) category of Some names \<Rightarrow> names | None \<Rightarrow> [])
          st"

subsection \<open>Applying a decision\<close>

text \<open>
  The loop \<^verbatim>\<open>Object.keys(CATEGORIES).forEach(cat => { if (consent[cat] && !prefs[cat])
  deleteCookies(cat); })\<close> of \<^verbatim>\<open>applyConsent\<close>, run when \<^verbatim>\<open>consent\<close> is not \<^verbatim>\<open>null\<close>:
  first its body, then the loop.
\<close>

definition revoke_step :: "(string \<times> jsval) list \<Rightarrow> string \<Rightarrow> state \<Rightarrow> state" where
  "revoke_step prefs cat s =
     (if truthy (member_of (consent s) cat) \<and> \<not> truthy (member_of (JObj prefs) cat)
      then deleteCookies cat s else s)"

definition delete_revoked :: "(string \<times> jsval) list \<Rightarrow> state \<Rightarrow> state" where
  "delete_revoked prefs st = fold (revoke_step prefs) (map fst (CATEGORIES st)) st"

text \<open>
  The loop \<^verbatim>\<open>Object.entries(...).forEach(([cat, allowed]) => { if (allowed)
  activateScripts(cat); })\<close>, which \<^verbatim>\<open>applyConsent\<close> and \<^verbatim>\<open>init\<close> both have. An exception
  in \<^verbatim>\<open>activateScripts\<close> ends the loop and leaves the function around it.
\<close>

fun activate_allowed :: "(string \<times> jsval) list \<Rightarrow> state \<Rightarrow> outcome" where
  "activate_allowed [] st = Returns st"
| "activate_allowed ((cat, allowed) # entries) st =
     (if truthy allowed
      then (case activateScripts cat st of
              Throws e s \<Rightarrow> Throws e s
            | Returns s \<Rightarrow> activate_allowed entries s)
      else activate_allowed entries st)"

text \<open>
  \<^verbatim>\<open>consent = prefs\<close> is assigned before the activation loop; \<^verbatim>\<open>save\<close> and the event come
  after it and are not reached when the loop throws.
\<close>

definition applyConsent :: "(string \<times> jsval) list \<Rightarrow> state \<Rightarrow> outcome" where
  "applyConsent prefs st =
     (let st1 = (if truthy (consent st) then delete_revoked prefs st else st);
          st2 = st1\<lparr>consent := JObj prefs\<rparr>
      in case activate_allowed (Object_entries (JObj prefs)) st2 of
           Throws e s \<Rightarrow> Throws e s
         | Returns st3 \<Rightarrow>
             (let st4 = save (JObj prefs) st3
              in Returns (st4\<lparr>events := events st4 @ [JObj prefs]\<rparr>)))"

definition defaultPrefs :: "state \<Rightarrow> (string \<times> jsval) list" where
  "defaultPrefs st =
     Object_fromEntries
       (map (\<lambda>(k, v). (k, if truthy (required v) then JBool True else dflt v)) (CATEGORIES st))"

definition acceptAll :: "state \<Rightarrow> outcome" where
  "acceptAll st =
     applyConsent (Object_fromEntries (map (\<lambda>k. (k, JBool True)) (map fst (CATEGORIES st)))) st"

definition rejectAll :: "state \<Rightarrow> outcome" where
  "rejectAll st = applyConsent (defaultPrefs st) st"

subsection \<open>The public interface\<close>

text \<open>\<^verbatim>\<open>createBanner\<close>, as far as the engine is concerned: the banner is on the page.\<close>

definition createBanner :: "state \<Rightarrow> state" where
  "createBanner st = st\<lparr>ui := ui st @ [Banner_shown]\<rparr>"

definition no_options :: options where
  "no_options = \<lparr>categories = None, cookieMap = None\<rparr>"

definition init :: "options \<Rightarrow> state \<Rightarrow> outcome" where
  "init opts st =
     (let st1 = (case categories opts of
                   Some cs \<Rightarrow> st\<lparr>CATEGORIES := Object_assign (CATEGORIES st) cs\<rparr>
                 | None \<Rightarrow> st);
          st2 = (case cookieMap opts of
                   Some cm \<Rightarrow> st1\<lparr>COOKIE_MAP := Object_assign (COOKIE_MAP st1) cm\<rparr>
                 | None \<Rightarrow> st1);
          stored = load st2
      in if truthy stored
         then activate_allowed (Object_entries stored) (st2\<lparr>consent := stored\<rparr>)
         else (case activateScripts ''necessary'' st2 of
                 Throws e s \<Rightarrow> Throws e s
               | Returns st3 \<Rightarrow>
                   Returns (if loading st3 then st3\<lparr>ui := ui st3 @ [Banner_deferred]\<rparr>
                            else createBanner st3)))"

definition hasConsent :: "string \<Rightarrow> state \<Rightarrow> bool" where
  "hasConsent category st \<longleftrightarrow> truthy (consent st) \<and> truthy (member_of (consent st) category)"

text \<open>
  \<^verbatim>\<open>location.reload()\<close> asks the browser to load the page again. The call returns, and
  the closure it was made from is as it was; what the script does on the page that is
  loaded next is \<open>init\<close> on a \<open>page_load\<close> (below).
\<close>

definition location_reload :: "state \<Rightarrow> state" where
  "location_reload st = st\<lparr>reload_requested := True\<rparr>"

definition reset :: "state \<Rightarrow> state" where
  "reset st =
     (let st1 = (case localStorage_removeItem STORAGE_KEY st of Some s \<Rightarrow> s | None \<Rightarrow> st);
          st2 = document_cookie_assign
                  \<lparr>ck_name = STORAGE_KEY, ck_value = Encoded Raw_empty, ck_expires = 0,
                   ck_tail = ''path=/''\<rparr> st1
      in location_reload st2)"

text \<open>
  The state in which the script starts on a page that the browser has loaded, before its
  last line calls \<^verbatim>\<open>CookieConsent.init()\<close>: the built-in registry and cookie map, \<^verbatim>\<open>consent\<close>
  \<^verbatim>\<open>null\<close>, nothing recorded yet; the stores, the host name, the clock and the document are
  what the browser has.
\<close>

definition page_load ::
  "(string \<rightharpoonup> raw) option \<Rightarrow> bool \<Rightarrow> (string \<rightharpoonup> cookie_value) \<Rightarrow> string \<Rightarrow> nat \<Rightarrow>
   script list \<Rightarrow> bool \<Rightarrow> state" where
  "page_load ls full jar host t page ld =
     \<lparr>CONSENT_VERSION = builtin_VERSION, CATEGORIES = builtin_CATEGORIES,
      COOKIE_MAP = builtin_COOKIE_MAP, consent = JNull, localStorage = ls,
      quota_exceeded = full, cookies = jar, cookie_writes = [], hostname = host, now = t,
      scripts = page, activated = [], events = [], loading = ld, ui = [],
      reload_requested = False\<rparr>"

subsection \<open>Notions used in the statements\<close>

text \<open>A value without \<^verbatim>\<open>undefined\<close> in it, such as a mapping from keys to booleans.\<close>

fun is_json :: "jsval \<Rightarrow> bool" where
  "is_json JUndefined = False"
| "is_json (JArr xs) = list_all is_json xs"
| "is_json (JObj ps) = list_all (\<lambda>(k, v). is_json v) ps"
| "is_json v = True"

text \<open>\<^verbatim>\<open>localStorage.setItem\<close> does not throw.\<close>

definition primary_writable :: "state \<Rightarrow> bool" where
  "primary_writable st \<longleftrightarrow> localStorage st \<noteq> None \<and> \<not> quota_exceeded st"

text \<open>The \<^verbatim>\<open>payload\<close> of the first line of \<^verbatim>\<open>save\<close>.\<close>

definition saved_payload :: "jsval \<Rightarrow> state \<Rightarrow> raw" where
  "saved_payload prefs st =
     JSON_stringify [(''version'', JStr (CONSENT_VERSION st)), (''prefs'', prefs),
                     (''ts'', JNum (int (now st)))]"

text \<open>
  What \<open>load\<close>, compiled with version \<open>v\<close>, finds in the backend that \<open>save\<close> does not write
  to: the cookie when the write to \<^verbatim>\<open>localStorage\<close> succeeds, \<^verbatim>\<open>localStorage\<close> when it throws.
\<close>

definition other_backend :: "string \<Rightarrow> state \<Rightarrow> jsval option" where
  "other_backend v st =
     (if primary_writable st then load_fallback (st\<lparr>CONSENT_VERSION := v\<rparr>)
      else load_primary (st\<lparr>CONSENT_VERSION := v\<rparr>))"




text \<open>A registry key whose value is true in the current record and not true in \<open>prefs\<close>.\<close>

definition revoked :: "state \<Rightarrow> (string \<times> jsval) list \<Rightarrow> string \<Rightarrow> bool" where
  "revoked st prefs k \<longleftrightarrow>
     k \<in> set (map fst (CATEGORIES st)) \<and> truthy (member_of (consent st) k) \<and>
     \<not> truthy (member_of (JObj prefs) k)"

text \<open>The cookie that \<open>save\<close> writes when \<^verbatim>\<open>localStorage.setItem\<close> throws.\<close>

definition payload_cookie :: "jsval \<Rightarrow> state \<Rightarrow> cookie" where
  "payload_cookie prefs st =
     \<lparr>ck_name = STORAGE_KEY, ck_value = encodeURIComponent (saved_payload prefs st),
      ck_expires = now st + 365 * 86400000, ck_tail = ''path=/;SameSite=Lax''\<rparr>"

text \<open>The state that \<open>activateScripts\<close> leaves when it returns.\<close>

definition activation :: "string \<Rightarrow> state \<Rightarrow> state" where
  "activation category st = replace_selected (filter (inert category) (scripts st)) st"

text \<open>What a step from \<open>st\<close> to \<open>st'\<close> has added to the two records of effects.\<close>

definition newly_activated :: "state \<Rightarrow> state \<Rightarrow> script list" where
  "newly_activated st st' = drop (length (activated st)) (activated st')"

definition new_cookie_writes :: "state \<Rightarrow> state \<Rightarrow> cookie list" where
  "new_cookie_writes st st' = drop (length (cookie_writes st)) (cookie_writes st')"

text \<open>A step that touches nothing but the cookie jar and the record of cookie writes.\<close>

definition only_cookies :: "state \<Rightarrow> state \<Rightarrow> bool" where
  "only_cookies st st' \<longleftrightarrow>
     st' = st\<lparr>cookies := cookies st', cookie_writes := cookie_writes st'\<rparr>"

text \<open>A record that allows the category \<^verbatim>\<open>social\<close>, which the built-in registry does not
  have.\<close>

definition social_prefs :: "(string \<times> jsval) list" where
  "social_prefs = [(''necessary'', JBool True), (''social'', JBool True)]"



text \<open>The record that \<^verbatim>\<open>acceptAll\<close> builds from the built-in registry.\<close>

definition all_true :: "(string \<times> jsval) list" where
  "all_true =
     [(''necessary'', JBool True), (''analytics'', JBool True),
      (''marketing'', JBool True), (''preferences'', JBool True)]"

subsection \<open>Example pages\<close>

text \<open>Concrete pages and stores on which the theorems below are run.\<close>

definition analytics_script :: script where
  "analytics_script =
     \<lparr>attributes = [(''type'', ''text/plain''), (''data-cookie-category'', ''analytics''),
                    (''data-src'', ''https://stats.example/a.js'')],
      textContent = []\<rparr>"

definition necessary_script :: script where
  "necessary_script =
     \<lparr>attributes = [(''type'', ''text/plain''), (''data-cookie-category'', ''necessary'')],
      textContent = ''boot()''\<rparr>"

definition marketing_script :: script where
  "marketing_script =
     \<lparr>attributes = [(''data-cookie-category'', ''marketing''), (''type'', ''text/plain''),
                    (''id'', ''px'')],
      textContent = ''track()''\<rparr>"

text \<open>A declaration whose category is not in the built-in registry.\<close>

definition social_script :: script where
  "social_script =
     \<lparr>attributes = [(''type'', ''text/plain''), (''data-cookie-category'', ''social''),
                    (''data-src'', ''https://social.example/w.js'')],
      textContent = []\<rparr>"



definition example_page :: "script list" where
  "example_page =
     [analytics_script, necessary_script, marketing_script, social_script,
      \<lparr>attributes = [(''src'', ''/app.js'')], textContent = []\<rparr>]"

definition first_visit :: state where
  "first_visit =
     page_load (Some Map.empty) False Map.empty ''example.com'' 1000 example_page False"

definition example_payload :: "string \<Rightarrow> jsval \<Rightarrow> jsval" where
  "example_payload version prefs =
     JObj [(''version'', JStr version), (''prefs'', prefs), (''ts'', JNum 500)]"

definition analytics_only :: "(string \<times> jsval) list" where
  "analytics_only =
     [(''necessary'', JBool True), (''analytics'', JBool True),
      (''marketing'', JBool False), (''preferences'', JBool False)]"

definition necessary_only :: "(string \<times> jsval) list" where
  "necessary_only =
     [(''necessary'', JBool True), (''analytics'', JBool False),
      (''marketing'', JBool False), (''preferences'', JBool False)]"

text \<open>A visit that finds a payload of version 1 in \<^verbatim>\<open>localStorage\<close> and one of version 2 in
  the cookie.\<close>

definition old_primary_visit :: state where
  "old_primary_visit =
     page_load (Some [STORAGE_KEY \<mapsto> Raw_json (example_payload ''1'' (JObj analytics_only))])
       False
       [STORAGE_KEY \<mapsto> Encoded (Raw_json (example_payload ''2'' (JObj necessary_only)))]
       ''example.com'' 1000 example_page False"

text \<open>A visit on which \<^verbatim>\<open>localStorage\<close> holds an earlier decision of the current version
  and has no room left.\<close>

definition full_storage_visit :: state where
  "full_storage_visit =
     page_load (Some [STORAGE_KEY \<mapsto> Raw_json (example_payload ''2'' (JObj analytics_only))])
       True Map.empty ''example.com'' 1000 example_page False"

text \<open>A visit that finds a cookie written by a build of version 3.\<close>

definition newer_cookie_visit :: state where
  "newer_cookie_visit =
     page_load (Some Map.empty) False
       [STORAGE_KEY \<mapsto> Encoded (Raw_json (example_payload ''3'' (JObj analytics_only)))]
       ''example.com'' 1000 example_page False"

text \<open>A visit on which every access to \<^verbatim>\<open>localStorage\<close> throws.\<close>

definition blocked_storage_visit :: state where
  "blocked_storage_visit =
     page_load None False Map.empty ''example.com'' 1000 example_page False"

text \<open>A returning visit: \<^verbatim>\<open>localStorage\<close> holds the decision that allowed everything.\<close>

definition all_true_visit :: state where
  "all_true_visit =
     after (init no_options
       (page_load (Some [STORAGE_KEY \<mapsto> Raw_json (example_payload ''2'' (JObj all_true))])
          False Map.empty ''example.com'' 1000 example_page False))"

text \<open>
  A returning visit whose stored decision allows \<^verbatim>\<open>social\<close>. The page now passes a cookie
  map for \<^verbatim>\<open>social\<close> to \<^verbatim>\<open>init\<close> but no category of that name.
\<close>

definition social_visit :: state where
  "social_visit =
     after (init \<lparr>categories = None, cookieMap = Some [(''social'', [''sid''])]\<rparr>
       (page_load (Some [STORAGE_KEY \<mapsto> Raw_json (example_payload ''2'' (JObj social_prefs))])
          False Map.empty ''example.com'' 1000 example_page False))"


section \<open>Properties\<close>

subsection \<open>Reading the decision\<close>

text \<open>
  C6. For every key, required or not, \<open>hasConsent\<close> is false while there is no current record
  (\<open>consent\<close> is \<^verbatim>\<open>null\<close>, the Undecided state); once a record is current, \<open>hasConsent\<close> returns
  the boolean that the record stores for the key.
\<close>

theorem hasConsent_reads_record:
  "(consent st = JNull \<longrightarrow> hasConsent k st = False) \<and>
   (consent st = JObj ps \<and> map_of ps k = Some (JBool b) \<longrightarrow> hasConsent k st = b)"
  by (simp add: hasConsent_def)

theorem hasConsent_reads_record_witness:
  "consent first_visit = JNull \<and> hasConsent ''necessary'' first_visit = False \<and>
   consent (first_visit\<lparr>consent := JObj analytics_only\<rparr>) = JObj analytics_only \<and>
   map_of analytics_only ''analytics'' = Some (JBool True) \<and>
   hasConsent ''analytics'' (first_visit\<lparr>consent := JObj analytics_only\<rparr>) = True \<and>
   map_of analytics_only ''marketing'' = Some (JBool False) \<and>
   hasConsent ''marketing'' (first_visit\<lparr>consent := JObj analytics_only\<rparr>) = False"
  using hasConsent_reads_record [of first_visit "''necessary''"]
    hasConsent_reads_record [of "first_visit\<lparr>consent := JObj analytics_only\<rparr>"
      "''analytics''" analytics_only True]
    hasConsent_reads_record [of "first_visit\<lparr>consent := JObj analytics_only\<rparr>"
      "''marketing''" analytics_only False]
  by (simp add: first_visit_def page_load_def analytics_only_def)

subsection \<open>Persistence\<close>

text \<open>
  C9. When the write to \<^verbatim>\<open>localStorage\<close> succeeds (the store is accessible and the quota is
  not exceeded), \<open>save\<close> does not touch the cookie backend: the cookie jar is unchanged and
  no assignment to \<^verbatim>\<open>document.cookie\<close> is made.
\<close>

theorem save_primary_ok_keeps_fallback:
  assumes "localStorage st = Some items" and "\<not> quota_exceeded st"
  shows "cookies (save prefs st) = cookies st \<and>
         cookie_writes (save prefs st) = cookie_writes st"
  using assms by (simp add: save_def localStorage_setItem_def Let_def)

theorem save_primary_ok_keeps_fallback_witness:
  "localStorage first_visit = Some Map.empty \<and> \<not> quota_exceeded first_visit \<and>
   cookies (save (JObj analytics_only) first_visit) = cookies first_visit \<and>
   cookie_writes (save (JObj analytics_only) first_visit) = cookie_writes first_visit"
  using save_primary_ok_keeps_fallback [of first_visit Map.empty "JObj analytics_only"]
  by (simp add: first_visit_def page_load_def)

text \<open>
  C8. \<open>load\<close> goes on to the cookie backend whenever the \<^verbatim>\<open>localStorage\<close> block returns
  nothing: when there is no item, when the item does not parse, and also when the item
  parses to a payload whose version is not the compiled one. If the cookie then holds a
  payload of the compiled version, \<open>load\<close> returns the \<^verbatim>\<open>prefs\<close> of the cookie's payload.
\<close>

theorem load_reads_fallback:
  assumes "localStorage st = Some items"
    and "items STORAGE_KEY = None \<or>
         (\<exists>t. items STORAGE_KEY = Some t \<and> JSON_parse t = None) \<or>
         (\<exists>d. items STORAGE_KEY = Some (Raw_json d) \<and>
              member_of d ''version'' \<noteq> JStr (CONSENT_VERSION st))"
    and "cookies st STORAGE_KEY = Some (Encoded (Raw_json d'))"
    and "member_of d' ''version'' = JStr (CONSENT_VERSION st)"
  shows "load st = member_of d' ''prefs''"
proof -
  have p: "load_primary st = None"
    using assms(1,2)
    by (auto simp: load_primary_def localStorage_getItem_def stored_prefs_def)
  have "\<not> nullish d'"
    using assms(4) by (cases d') auto
  then have "load_fallback st = Some (member_of d' ''prefs'')"
    using assms(3,4)
    by (simp add: load_fallback_def document_cookie_match_def stored_prefs_def)
  with p show ?thesis
    by (simp add: load_def)
qed

theorem load_reads_fallback_witness:
  "localStorage old_primary_visit =
     Some [STORAGE_KEY \<mapsto> Raw_json (example_payload ''1'' (JObj analytics_only))] \<and>
   member_of (example_payload ''1'' (JObj analytics_only)) ''version''
     \<noteq> JStr (CONSENT_VERSION old_primary_visit) \<and>
   cookies old_primary_visit STORAGE_KEY =
     Some (Encoded (Raw_json (example_payload ''2'' (JObj necessary_only)))) \<and>
   member_of (example_payload ''2'' (JObj necessary_only)) ''version''
     = JStr (CONSENT_VERSION old_primary_visit) \<and>
   load old_primary_visit = JObj necessary_only"
  using load_reads_fallback [of old_primary_visit
      "[STORAGE_KEY \<mapsto> Raw_json (example_payload ''1'' (JObj analytics_only))]"
      "example_payload ''2'' (JObj necessary_only)"]
  by (simp add: old_primary_visit_def page_load_def example_payload_def builtin_VERSION_def)

text \<open>\<^verbatim>\<open>JSON.parse(JSON.stringify(v))\<close> is \<open>v\<close> for a value without \<^verbatim>\<open>undefined\<close>.\<close>

lemma is_json_defined: "is_json v \<Longrightarrow> v \<noteq> JUndefined"
  by auto

lemma to_json_id: "is_json v \<Longrightarrow> to_json v = v"
proof (induction v rule: to_json.induct)
  case (1 ps)
  have js: "is_json b" if "(a, b) \<in> set ps" for a b
    using 1(2) that by (auto simp: list_all_iff)
  have "filter (\<lambda>(k, v). v \<noteq> JUndefined) ps = ps"
    using js by (auto simp: filter_id_conv dest: is_json_defined)
  moreover have "to_json b = b" if "(a, b) \<in> set ps" for a b
    using 1(1) [of "(a, b)" a b] js [OF that] that by (simp add: is_json_defined)
  then have "map (\<lambda>(k, v). (k, to_json v)) ps = ps"
    by (intro map_idI) auto
  ultimately show ?case by simp
next
  case (2 xs)
  have "(if x = JUndefined then JNull else to_json x) = x" if "x \<in> set xs" for x
    using 2 that by (auto simp: list_all_iff dest: is_json_defined)
  then have "map (\<lambda>v. if v = JUndefined then JNull else to_json v) xs = xs"
    by (intro map_idI) auto
  then show ?case by simp
qed simp_all

lemma stored_prefs_saved:
  "prefs \<noteq> JUndefined \<Longrightarrow>
   stored_prefs v (saved_payload prefs st) =
     (if v = CONSENT_VERSION st then Some (to_json prefs) else None)"
  by (simp add: stored_prefs_def saved_payload_def JSON_stringify_def)

lemma stored_prefs_saved_other:
  "v \<noteq> CONSENT_VERSION st \<Longrightarrow> stored_prefs v (saved_payload prefs st) = None"
  by (simp add: stored_prefs_def saved_payload_def JSON_stringify_def)

lemma saved_payload_not_empty: "saved_payload prefs st \<noteq> Raw_empty"
  by (simp add: saved_payload_def JSON_stringify_def)

lemma save_writable:
  "primary_writable st \<Longrightarrow>
   save prefs st =
     st\<lparr>localStorage := Some ((the (localStorage st))(STORAGE_KEY \<mapsto> saved_payload prefs st))\<rparr>"
  by (auto simp: primary_writable_def save_def localStorage_setItem_def saved_payload_def)

lemma save_not_writable:
  "\<not> primary_writable st \<Longrightarrow>
   save prefs st =
     st\<lparr>cookies := (cookies st)(STORAGE_KEY \<mapsto> Encoded (saved_payload prefs st)),
        cookie_writes := cookie_writes st @
          [\<lparr>ck_name = STORAGE_KEY, ck_value = Encoded (saved_payload prefs st),
            ck_expires = now st + 365 * 86400000, ck_tail = ''path=/;SameSite=Lax''\<rparr>]\<rparr>"
  by (auto simp: primary_writable_def save_def localStorage_setItem_def saved_payload_def
      document_cookie_assign_def encodeURIComponent_def Let_def split: option.splits)

lemma load_primary_frame:
  "localStorage a = localStorage b \<Longrightarrow> CONSENT_VERSION a = CONSENT_VERSION b \<Longrightarrow>
   load_primary a = load_primary b"
  by (simp add: load_primary_def localStorage_getItem_def split: option.splits)

lemma load_fallback_frame:
  "cookies a = cookies b \<Longrightarrow> CONSENT_VERSION a = CONSENT_VERSION b \<Longrightarrow>
   load_fallback a = load_fallback b"
  by (simp add: load_fallback_def document_cookie_match_def split: option.splits)

text \<open>
  C3, as the code has it. Let \<open>prefs\<close> be a value without \<^verbatim>\<open>undefined\<close> (a mapping from keys to
  booleans is one).
  \<^item> With the compiled version unchanged, \<open>load\<close> after \<open>save prefs\<close> returns \<open>prefs\<close>,
    provided the write to \<^verbatim>\<open>localStorage\<close> succeeded or \<^verbatim>\<open>localStorage\<close> holds no payload of the
    compiled version that \<open>load\<close> would return.
  \<^item> With a compiled version \<open>v\<close> other than the one stored with the payload, \<open>load\<close> returns
    \<^verbatim>\<open>null\<close> when the backend that \<open>save\<close> did not write holds no payload of version \<open>v\<close>,
    and the \<^verbatim>\<open>prefs\<close> of that backend's payload when it holds one; the payload that \<open>save\<close>
    wrote is still in storage.
\<close>

theorem load_after_save:
  assumes "is_json prefs"
  shows "(primary_writable st \<or> load_primary st = None \<longrightarrow> load (save prefs st) = prefs) \<and>
         (v \<noteq> CONSENT_VERSION st \<longrightarrow>
            (other_backend v st = None \<longrightarrow>
               load ((save prefs st)\<lparr>CONSENT_VERSION := v\<rparr>) = JNull) \<and>
            (\<forall>p. other_backend v st = Some p \<longrightarrow>
               load ((save prefs st)\<lparr>CONSENT_VERSION := v\<rparr>) = p) \<and>
            (localStorage_getItem STORAGE_KEY (save prefs st) = Some (Some (saved_payload prefs st)) \<or>
             document_cookie_match STORAGE_KEY (save prefs st)
               = Some (encodeURIComponent (saved_payload prefs st))))"
proof -
  have ne: "prefs \<noteq> JUndefined" using assms by (cases prefs) auto
  have id: "to_json prefs = prefs" using assms by (rule to_json_id)
  show ?thesis
  proof (cases "primary_writable st")
    case True
    then obtain items where items: "localStorage st = Some items"
      by (auto simp: primary_writable_def)
    have s: "save prefs st = st\<lparr>localStorage := Some (items(STORAGE_KEY \<mapsto> saved_payload prefs st))\<rparr>"
      using save_writable [OF True, of prefs] items by simp
    have o: "other_backend v st = load_fallback (st\<lparr>CONSENT_VERSION := v\<rparr>)"
      using True by (simp add: other_backend_def)
    have 1: "load (save prefs st) = prefs"
      by (simp add: s load_def load_primary_def localStorage_getItem_def
          saved_payload_not_empty stored_prefs_saved [OF ne] id)
    have 2: "load ((save prefs st)\<lparr>CONSENT_VERSION := v\<rparr>)
        = (case other_backend v st of Some p \<Rightarrow> p | None \<Rightarrow> JNull)"
      if d: "v \<noteq> CONSENT_VERSION st"
    proof -
      have "load_fallback ((save prefs st)\<lparr>CONSENT_VERSION := v\<rparr>)
              = load_fallback (st\<lparr>CONSENT_VERSION := v\<rparr>)"
        by (rule load_fallback_frame) (simp_all add: s)
      moreover have "load_primary ((save prefs st)\<lparr>CONSENT_VERSION := v\<rparr>) = None"
        by (simp add: s load_primary_def localStorage_getItem_def saved_payload_not_empty
            stored_prefs_saved_other [OF d])
      ultimately show ?thesis by (simp add: load_def o)
    qed
    have 3: "localStorage_getItem STORAGE_KEY (save prefs st) = Some (Some (saved_payload prefs st))"
      by (simp add: s localStorage_getItem_def)
    from True 1 2 3 show ?thesis by simp
  next
    case False
    note s = save_not_writable [OF False, of prefs]
    have o: "other_backend v st = load_primary (st\<lparr>CONSENT_VERSION := v\<rparr>)"
      using False by (simp add: other_backend_def)
    have 1: "load (save prefs st) = prefs" if "load_primary st = None"
    proof -
      have "load_primary (save prefs st) = load_primary st"
        by (rule load_primary_frame) (simp_all add: s)
      then have "load_primary (save prefs st) = None"
        using that by simp
      then show ?thesis
        by (simp add: load_def s load_fallback_def document_cookie_match_def
            stored_prefs_saved [OF ne] id)
    qed
    have 2: "load ((save prefs st)\<lparr>CONSENT_VERSION := v\<rparr>)
        = (case other_backend v st of Some p \<Rightarrow> p | None \<Rightarrow> JNull)"
      if d: "v \<noteq> CONSENT_VERSION st"
    proof -
      have "load_primary ((save prefs st)\<lparr>CONSENT_VERSION := v\<rparr>)
              = load_primary (st\<lparr>CONSENT_VERSION := v\<rparr>)"
        by (rule load_primary_frame) (simp_all add: s)
      moreover have "load_fallback ((save prefs st)\<lparr>CONSENT_VERSION := v\<rparr>) = None"
        by (simp add: s load_fallback_def document_cookie_match_def
            stored_prefs_saved_other [OF d])
      ultimately show ?thesis
        by (simp add: load_def o split: option.splits)
    qed
    have 3: "document_cookie_match STORAGE_KEY (save prefs st)
               = Some (encodeURIComponent (saved_payload prefs st))"
      by (simp add: s document_cookie_match_def encodeURIComponent_def)
    from False 1 2 3 show ?thesis by simp
  qed
qed

theorem load_after_save_witness:
  "is_json (JObj analytics_only) \<and>
   primary_writable first_visit \<and>
   load (save (JObj analytics_only) first_visit) = JObj analytics_only \<and>
   ''3'' \<noteq> CONSENT_VERSION first_visit \<and>
   other_backend ''3'' first_visit = None \<and>
   load ((save (JObj analytics_only) first_visit)\<lparr>CONSENT_VERSION := ''3''\<rparr>) = JNull \<and>
   \<not> primary_writable blocked_storage_visit \<and>
   load_primary blocked_storage_visit = None \<and>
   load (save (JObj analytics_only) blocked_storage_visit) = JObj analytics_only \<and>
   other_backend ''3'' blocked_storage_visit = None \<and>
   load ((save (JObj analytics_only) blocked_storage_visit)\<lparr>CONSENT_VERSION := ''3''\<rparr>) = JNull \<and>
   is_json (JObj necessary_only) \<and>
   ''3'' \<noteq> CONSENT_VERSION newer_cookie_visit \<and>
   other_backend ''3'' newer_cookie_visit = Some (JObj analytics_only) \<and>
   load ((save (JObj necessary_only) newer_cookie_visit)\<lparr>CONSENT_VERSION := ''3''\<rparr>)
     = JObj analytics_only"
proof -
  have 1: "other_backend ''3'' first_visit = None"
    by (simp add: other_backend_def primary_writable_def first_visit_def page_load_def
        load_fallback_def document_cookie_match_def)
  have 2: "other_backend ''3'' blocked_storage_visit = None"
    by (simp add: other_backend_def primary_writable_def blocked_storage_visit_def
        page_load_def load_primary_def localStorage_getItem_def)
  have 3: "other_backend ''3'' newer_cookie_visit = Some (JObj analytics_only)"
    by (simp add: other_backend_def primary_writable_def newer_cookie_visit_def
        page_load_def load_fallback_def document_cookie_match_def stored_prefs_def
        example_payload_def)
  have 4: "is_json (JObj analytics_only)" "is_json (JObj necessary_only)"
    by (simp_all add: analytics_only_def necessary_only_def)
  have 5: "primary_writable first_visit" "\<not> primary_writable blocked_storage_visit"
    "load_primary blocked_storage_visit = None"
    by (simp_all add: primary_writable_def first_visit_def blocked_storage_visit_def
        page_load_def load_primary_def localStorage_getItem_def)
  have 6: "''3'' \<noteq> CONSENT_VERSION first_visit"
    "''3'' \<noteq> CONSENT_VERSION blocked_storage_visit"
    "''3'' \<noteq> CONSENT_VERSION newer_cookie_visit"
    by (simp_all add: first_visit_def blocked_storage_visit_def newer_cookie_visit_def
        page_load_def builtin_VERSION_def)
  show ?thesis
    using load_after_save [OF 4(1), of first_visit "''3''"]
      load_after_save [OF 4(1), of blocked_storage_visit "''3''"]
      load_after_save [OF 4(2), of newer_cookie_visit "''3''"]
      1 2 3 4 5 6
    by simp
qed

text \<open>
  C3 as stated fails in two ways. On \<open>full_storage_visit\<close> the write to \<^verbatim>\<open>localStorage\<close>
  throws, the new record goes to the cookie, and \<open>load\<close> returns the earlier record that is
  still in \<^verbatim>\<open>localStorage\<close>. On \<open>newer_cookie_visit\<close> the record is saved under version 2,
  the compiled version becomes 3, and \<open>load\<close> returns the record of the cookie instead of
  \<^verbatim>\<open>null\<close>.
\<close>

theorem load_after_save_counterexample:
  "is_json (JObj necessary_only) \<and>
   CONSENT_VERSION (save (JObj necessary_only) full_storage_visit)
     = CONSENT_VERSION full_storage_visit \<and>
   load (save (JObj necessary_only) full_storage_visit) = JObj analytics_only \<and>
   JObj analytics_only \<noteq> JObj necessary_only \<and>
   ''3'' \<noteq> CONSENT_VERSION newer_cookie_visit \<and>
   localStorage_getItem STORAGE_KEY (save (JObj necessary_only) newer_cookie_visit)
     = Some (Some (saved_payload (JObj necessary_only) newer_cookie_visit)) \<and>
   load ((save (JObj necessary_only) newer_cookie_visit)\<lparr>CONSENT_VERSION := ''3''\<rparr>)
     = JObj analytics_only \<and>
   JObj analytics_only \<noteq> JNull"
  by (simp add: necessary_only_def analytics_only_def full_storage_visit_def
      newer_cookie_visit_def page_load_def save_def load_def load_primary_def
      load_fallback_def localStorage_setItem_def localStorage_getItem_def
      document_cookie_assign_def document_cookie_match_def stored_prefs_def
      JSON_stringify_def encodeURIComponent_def example_payload_def STORAGE_KEY_def
      builtin_VERSION_def saved_payload_def Let_def)

subsection \<open>Activation\<close>


lemma plain_necessary: "plain_key ''necessary''"
  by (simp add: plain_key_def)









lemma activation_frame:
  "activation c st =
     st\<lparr>scripts := scripts (activation c st), activated := activated (activation c st)\<rparr>"
  by (simp add: activation_def replace_selected_def)

lemma activateScripts_eq:
  "activateScripts c st =
     (if plain_key c then Returns (activation c st) else Throws SyntaxError st)"
  by (simp add: activateScripts_def querySelectorAll_def activation_def)







text \<open>The activation loop, one entry at a time.\<close>

lemma activate_allowed_Cons:
  "activate_allowed ((c, v) # es) st =
     (if truthy v
      then (if plain_key c then activate_allowed es (activation c st)
            else Throws SyntaxError st)
      else activate_allowed es st)"
  by (simp add: activateScripts_eq)

lemma activate_allowed_returns:
  "returns (activate_allowed es st) \<longleftrightarrow> (\<forall>(c, v)\<in>set es. truthy v \<longrightarrow> plain_key c)"
proof (induction es arbitrary: st)
  case Nil
  show ?case by simp
next
  case (Cons a es)
  obtain c v where a: "a = (c, v)" by (cases a)
  show ?case
    by (simp add: a activate_allowed_Cons Cons.IH del: activate_allowed.simps)
qed

lemma activate_allowed_frame:
  "after (activate_allowed es st) =
     st\<lparr>scripts := scripts (after (activate_allowed es st)),
        activated := activated (after (activate_allowed es st))\<rparr>"
proof (induction es arbitrary: st)
  case Nil
  show ?case by simp
next
  case (Cons a es)
  obtain c v where a: "a = (c, v)" by (cases a)
  show ?case
  proof (cases "truthy v \<and> plain_key c")
    case True
    let ?s = "activation c st"
    have "after (activate_allowed es ?s) =
        ?s\<lparr>scripts := scripts (after (activate_allowed es ?s)),
          activated := activated (after (activate_allowed es ?s))\<rparr>"
      by (rule Cons.IH)
    also have "\<dots> = st\<lparr>scripts := scripts (after (activate_allowed es ?s)),
          activated := activated (after (activate_allowed es ?s))\<rparr>"
      by (subst activation_frame) simp
    finally show ?thesis
      using True by (simp add: a activate_allowed_Cons del: activate_allowed.simps)
  next
    case False
    then show ?thesis
      using Cons.IH [of st] by (auto simp: a activate_allowed_Cons simp del: activate_allowed.simps)
  qed
qed

lemma activate_allowed_fields:
  "consent (after (activate_allowed es st)) = consent st"
  "localStorage (after (activate_allowed es st)) = localStorage st"
  "quota_exceeded (after (activate_allowed es st)) = quota_exceeded st"
  "cookies (after (activate_allowed es st)) = cookies st"
  "cookie_writes (after (activate_allowed es st)) = cookie_writes st"
  "CONSENT_VERSION (after (activate_allowed es st)) = CONSENT_VERSION st"
  "now (after (activate_allowed es st)) = now st"
  "events (after (activate_allowed es st)) = events st"
  "CATEGORIES (after (activate_allowed es st)) = CATEGORIES st"
  "COOKIE_MAP (after (activate_allowed es st)) = COOKIE_MAP st"
  "hostname (after (activate_allowed es st)) = hostname st"
  "loading (after (activate_allowed es st)) = loading st"
  "ui (after (activate_allowed es st)) = ui st"
  "reload_requested (after (activate_allowed es st)) = reload_requested st"
proof -
  note eq = activate_allowed_frame [of es st]
  show "consent (after (activate_allowed es st)) = consent st"
    using arg_cong [OF eq, of consent] by simp
  show "localStorage (after (activate_allowed es st)) = localStorage st"
    using arg_cong [OF eq, of localStorage] by simp
  show "quota_exceeded (after (activate_allowed es st)) = quota_exceeded st"
    using arg_cong [OF eq, of quota_exceeded] by simp
  show "cookies (after (activate_allowed es st)) = cookies st"
    using arg_cong [OF eq, of cookies] by simp
  show "cookie_writes (after (activate_allowed es st)) = cookie_writes st"
    using arg_cong [OF eq, of cookie_writes] by simp
  show "CONSENT_VERSION (after (activate_allowed es st)) = CONSENT_VERSION st"
    using arg_cong [OF eq, of CONSENT_VERSION] by simp
  show "now (after (activate_allowed es st)) = now st"
    using arg_cong [OF eq, of now] by simp
  show "events (after (activate_allowed es st)) = events st"
    using arg_cong [OF eq, of events] by simp
  show "CATEGORIES (after (activate_allowed es st)) = CATEGORIES st"
    using arg_cong [OF eq, of CATEGORIES] by simp
  show "COOKIE_MAP (after (activate_allowed es st)) = COOKIE_MAP st"
    using arg_cong [OF eq, of COOKIE_MAP] by simp
  show "hostname (after (activate_allowed es st)) = hostname st"
    using arg_cong [OF eq, of hostname] by simp
  show "loading (after (activate_allowed es st)) = loading st"
    using arg_cong [OF eq, of loading] by simp
  show "ui (after (activate_allowed es st)) = ui st"
    using arg_cong [OF eq, of ui] by simp
  show "reload_requested (after (activate_allowed es st)) = reload_requested st"
    using arg_cong [OF eq, of reload_requested] by simp
qed











text \<open>The first visit: \<open>init\<close> when \<open>load\<close> finds nothing.\<close>

lemma load_frame:
  "localStorage a = localStorage b \<Longrightarrow> cookies a = cookies b \<Longrightarrow>
   CONSENT_VERSION a = CONSENT_VERSION b \<Longrightarrow> load a = load b"
  using load_primary_frame [of a b] load_fallback_frame [of a b]
  by (simp add: load_def split: option.splits)

lemma load_registry_update:
  "load (st\<lparr>CATEGORIES := cs\<rparr>) = load st"
  "load (st\<lparr>COOKIE_MAP := cm\<rparr>) = load st"
  by (rule load_frame; simp)+

lemma init_undecided:
  assumes "\<not> truthy (load st)"
  shows "returns (init opts st)"
    and "scripts (after (init opts st)) = scripts (activation ''necessary'' st)"
    and "activated (after (init opts st)) = activated (activation ''necessary'' st)"
    and "consent (after (init opts st)) = consent st"
    and "localStorage (after (init opts st)) = localStorage st"
    and "cookies (after (init opts st)) = cookies st"
    and "CONSENT_VERSION (after (init opts st)) = CONSENT_VERSION st"
    and "ui (after (init opts st))
           = ui st @ [if loading st then Banner_deferred else Banner_shown]"
  using assms
  by (cases "categories opts"; cases "cookieMap opts";
      simp add: init_def Let_def load_registry_update activateScripts_eq plain_necessary
        activation_def replace_selected_def createBanner_def)+




lemma example_plain:
  "plain_key ''necessary''" "plain_key ''analytics''" "plain_key ''marketing''"
  "plain_key ''preferences''" "plain_key ''social''"
  by (simp_all add: plain_key_def)


text \<open>What the steps of \<open>applyConsent\<close> leave alone.\<close>

lemma only_cookies_refl: "only_cookies st st"
  by (simp add: only_cookies_def)

lemma only_cookies_trans:
  assumes "only_cookies a b" and "only_cookies b c"
  shows "only_cookies a c"
proof -
  have "c = b\<lparr>cookies := cookies c, cookie_writes := cookie_writes c\<rparr>"
    using assms(2) by (simp add: only_cookies_def)
  also have "b = a\<lparr>cookies := cookies b, cookie_writes := cookie_writes b\<rparr>"
    using assms(1) by (simp add: only_cookies_def)
  finally have "c = a\<lparr>cookies := cookies b, cookie_writes := cookie_writes b\<rparr>
       \<lparr>cookies := cookies c, cookie_writes := cookie_writes c\<rparr>" .
  then have "c = a\<lparr>cookies := cookies c, cookie_writes := cookie_writes c\<rparr>"
    by simp
  then show ?thesis
    unfolding only_cookies_def .
qed

lemma only_cookies_fields:
  assumes "only_cookies st st'"
  shows "scripts st' = scripts st" and "activated st' = activated st"
    and "consent st' = consent st" and "CATEGORIES st' = CATEGORIES st"
    and "COOKIE_MAP st' = COOKIE_MAP st" and "hostname st' = hostname st"
    and "localStorage st' = localStorage st" and "quota_exceeded st' = quota_exceeded st"
    and "CONSENT_VERSION st' = CONSENT_VERSION st" and "now st' = now st"
    and "events st' = events st" and "ui st' = ui st" and "loading st' = loading st"
    and "reload_requested st' = reload_requested st"
proof -
  have eq: "st' = st\<lparr>cookies := cookies st', cookie_writes := cookie_writes st'\<rparr>"
    using assms by (simp add: only_cookies_def)
  show "scripts st' = scripts st" using arg_cong [OF eq, of scripts] by simp
  show "activated st' = activated st" using arg_cong [OF eq, of activated] by simp
  show "consent st' = consent st" using arg_cong [OF eq, of consent] by simp
  show "CATEGORIES st' = CATEGORIES st" using arg_cong [OF eq, of CATEGORIES] by simp
  show "COOKIE_MAP st' = COOKIE_MAP st" using arg_cong [OF eq, of COOKIE_MAP] by simp
  show "hostname st' = hostname st" using arg_cong [OF eq, of hostname] by simp
  show "localStorage st' = localStorage st" using arg_cong [OF eq, of localStorage] by simp
  show "quota_exceeded st' = quota_exceeded st"
    using arg_cong [OF eq, of quota_exceeded] by simp
  show "CONSENT_VERSION st' = CONSENT_VERSION st"
    using arg_cong [OF eq, of CONSENT_VERSION] by simp
  show "now st' = now st" using arg_cong [OF eq, of now] by simp
  show "events st' = events st" using arg_cong [OF eq, of events] by simp
  show "ui st' = ui st" using arg_cong [OF eq, of ui] by simp
  show "loading st' = loading st" using arg_cong [OF eq, of loading] by simp
  show "reload_requested st' = reload_requested st"
    using arg_cong [OF eq, of reload_requested] by simp
qed

lemma document_cookie_assign_only: "only_cookies st (document_cookie_assign c st)"
  by (simp add: only_cookies_def document_cookie_assign_def)

lemma fold_only_cookies:
  assumes "\<And>x s. only_cookies s (f x s)"
  shows "only_cookies st (fold f xs st)"
proof (induction xs arbitrary: st)
  case Nil
  show ?case by (simp add: only_cookies_refl)
next
  case (Cons x xs)
  have "only_cookies st (f x st)" by (rule assms)
  moreover have "only_cookies (f x st) (fold f xs (f x st))" by (rule Cons.IH)
  ultimately show ?case
    by (simp add: only_cookies_trans)
qed

lemma deleteCookies_only: "only_cookies st (deleteCookies c st)"
  unfolding deleteCookies_def
  by (intro fold_only_cookies document_cookie_assign_only)

lemma revoke_step_only: "only_cookies s (revoke_step prefs cat s)"
  by (simp add: revoke_step_def deleteCookies_only only_cookies_refl)

lemma delete_revoked_only: "only_cookies st (delete_revoked prefs st)"
  unfolding delete_revoked_def
  by (intro fold_only_cookies revoke_step_only)

lemma save_fields:
  "scripts (save prefs st) = scripts st" "activated (save prefs st) = activated st"
  "consent (save prefs st) = consent st" "events (save prefs st) = events st"
  "CATEGORIES (save prefs st) = CATEGORIES st" "CONSENT_VERSION (save prefs st) = CONSENT_VERSION st"
  by (cases "primary_writable st"; simp add: save_writable save_not_writable)+


lemma applyConsent_after:
  "after (applyConsent prefs st) =
     (let st2 = (if truthy (consent st) then delete_revoked prefs st else st)
                  \<lparr>consent := JObj prefs\<rparr>;
          s = after (activate_allowed prefs st2)
      in if returns (activate_allowed prefs st2)
         then (save (JObj prefs) s)\<lparr>events := events (save (JObj prefs) s) @ [JObj prefs]\<rparr>
         else s)"
  by (simp add: applyConsent_def Let_def split: outcome.splits)

lemma applyConsent_returns:
  "returns (applyConsent prefs st) \<longleftrightarrow> (\<forall>(c, v)\<in>set prefs. truthy v \<longrightarrow> plain_key c)"
proof -
  define st2 where
    "st2 = (if truthy (consent st) then delete_revoked prefs st else st)\<lparr>consent := JObj prefs\<rparr>"
  have "returns (applyConsent prefs st) = returns (activate_allowed prefs st2)"
    by (simp add: applyConsent_def Let_def st2_def split: outcome.splits)
  then show ?thesis
    by (simp add: activate_allowed_returns)
qed


lemma applyConsent_consent: "consent (after (applyConsent prefs st)) = JObj prefs"
  by (simp add: applyConsent_after Let_def save_fields activate_allowed_fields)

lemma newly_activated_append:
  "activated st' = activated st @ new \<Longrightarrow> newly_activated st st' = new"
  by (simp add: newly_activated_def)
























subsection \<open>Revocation\<close>

lemma truthy_member: "truthy (member_of v k) \<Longrightarrow> truthy v"
  by (cases v) (auto split: if_splits option.splits)

lemma expire_each_tail:
  "cookie_writes (fold (\<lambda>tail s'. document_cookie_assign (expired_cookie n tail) s') ts s)
     = cookie_writes s @ map (expired_cookie n) ts"
  by (induction ts arbitrary: s) (simp_all add: document_cookie_assign_def)

lemma expire_each_tail_only:
  "only_cookies s (fold (\<lambda>tail s'. document_cookie_assign (expired_cookie n tail) s') ts s)"
  by (intro fold_only_cookies document_cookie_assign_only)

lemma tails_only: "only_cookies s s' \<Longrightarrow> tails s' = tails s"
  by (simp add: tails_def only_cookies_fields)

lemma expire_each_name:
  "cookie_writes
     (fold (\<lambda>name s. fold (\<lambda>tail s'. document_cookie_assign (expired_cookie name tail) s')
                         (tails s) s) names s)
     = cookie_writes s @ concat (map (\<lambda>n. map (expired_cookie n) (tails s)) names)"
proof (induction names arbitrary: s)
  case Nil
  show ?case by simp
next
  case (Cons n names)
  let ?s = "fold (\<lambda>tail s'. document_cookie_assign (expired_cookie n tail) s') (tails s) s"
  have "tails ?s = tails s"
    by (rule tails_only) (rule expire_each_tail_only)
  then show ?case
    by (simp add: Cons.IH [of ?s] expire_each_tail)
qed

lemma deleteCookies_writes:
  "cookie_writes (deleteCookies c st)
     = cookie_writes st @
       concat (map (\<lambda>n. map (expired_cookie n) (tails st))
                 (case map_of (COOKIE_MAP st) c of Some names \<Rightarrow> names | None \<Rightarrow> []))"
  by (simp add: deleteCookies_def expire_each_name)

lemma revoke_step_grows:
  "\<exists>new. cookie_writes (revoke_step prefs k s) = cookie_writes s @ new"
  by (simp add: revoke_step_def deleteCookies_writes)

lemma revoke_fold_grows:
  "\<exists>new. cookie_writes (fold (revoke_step prefs) ks s) = cookie_writes s @ new"
proof (induction ks arbitrary: s)
  case Nil
  show ?case by simp
next
  case (Cons k ks)
  obtain new where "cookie_writes (fold (revoke_step prefs) ks (revoke_step prefs k s))
      = cookie_writes (revoke_step prefs k s) @ new"
    using Cons.IH by blast
  moreover obtain new0 where "cookie_writes (revoke_step prefs k s) = cookie_writes s @ new0"
    using revoke_step_grows by blast
  ultimately show ?case by simp
qed

lemma revoke_fold_purges:
  assumes "k \<in> set ks"
    and "truthy (member_of (consent s) k)" and "\<not> truthy (member_of (JObj prefs) k)"
    and "map_of (COOKIE_MAP s) k = Some names" and "n \<in> set names" and "t \<in> set (tails s)"
  shows "\<exists>new. cookie_writes (fold (revoke_step prefs) ks s) = cookie_writes s @ new \<and>
               expired_cookie n t \<in> set new"
  using assms
proof (induction ks arbitrary: s)
  case Nil
  then show ?case by simp
next
  case (Cons a ks)
  let ?s = "revoke_step prefs a s"
  note o = revoke_step_only [of s prefs a]
  show ?case
  proof (cases "a = k")
    case True
    have w: "cookie_writes ?s
        = cookie_writes s @ concat (map (\<lambda>n. map (expired_cookie n) (tails s)) names)"
      using True Cons.prems by (simp add: revoke_step_def deleteCookies_writes)
    obtain new where "cookie_writes (fold (revoke_step prefs) ks ?s) = cookie_writes ?s @ new"
      using revoke_fold_grows by blast
    then have "cookie_writes (fold (revoke_step prefs) (a # ks) s)
        = cookie_writes s @ (concat (map (\<lambda>n. map (expired_cookie n) (tails s)) names) @ new)"
      by (simp add: w)
    moreover have "expired_cookie n t
        \<in> set (concat (map (\<lambda>n. map (expired_cookie n) (tails s)) names) @ new)"
      using Cons.prems(5,6) by auto
    ultimately show ?thesis by blast
  next
    case False
    then have "k \<in> set ks" using Cons.prems(1) by simp
    moreover have "truthy (member_of (consent ?s) k)" "map_of (COOKIE_MAP ?s) k = Some names"
      "t \<in> set (tails ?s)"
      using Cons.prems by (simp_all add: only_cookies_fields [OF o] tails_only [OF o])
    ultimately obtain new where
      n: "cookie_writes (fold (revoke_step prefs) ks ?s) = cookie_writes ?s @ new"
      and m: "expired_cookie n t \<in> set new"
      using Cons.IH [of ?s] Cons.prems(3,5) by blast
    obtain new0 where "cookie_writes ?s = cookie_writes s @ new0"
      using revoke_step_grows by blast
    then have "cookie_writes (fold (revoke_step prefs) (a # ks) s) = cookie_writes s @ (new0 @ new)"
      using n by simp
    moreover have "expired_cookie n t \<in> set (new0 @ new)" using m by simp
    ultimately show ?thesis by blast
  qed
qed

lemma revoke_step_writes:
  "cookie_writes (revoke_step prefs k s)
     = cookie_writes s @
       (if truthy (member_of (consent s) k) \<and> \<not> truthy (member_of (JObj prefs) k)
        then concat (map (\<lambda>n. map (expired_cookie n) (tails s))
               (case map_of (COOKIE_MAP s) k of Some names \<Rightarrow> names | None \<Rightarrow> []))
        else [])"
  by (simp add: revoke_step_def deleteCookies_writes)

lemma revoke_fold_origin:
  "\<exists>new. cookie_writes (fold (revoke_step prefs) ks s) = cookie_writes s @ new \<and>
     (\<forall>w\<in>set new. \<exists>k names n t.
        k \<in> set ks \<and> truthy (member_of (consent s) k) \<and> \<not> truthy (member_of (JObj prefs) k) \<and>
        map_of (COOKIE_MAP s) k = Some names \<and> n \<in> set names \<and> t \<in> set (tails s) \<and>
        w = expired_cookie n t)"
proof (induction ks arbitrary: s)
  case Nil
  show ?case by simp
next
  case (Cons a ks)
  let ?s = "revoke_step prefs a s"
  note o = revoke_step_only [of s prefs a]
  define new0 where "new0 =
    (if truthy (member_of (consent s) a) \<and> \<not> truthy (member_of (JObj prefs) a)
     then concat (map (\<lambda>n. map (expired_cookie n) (tails s))
            (case map_of (COOKIE_MAP s) a of Some names \<Rightarrow> names | None \<Rightarrow> []))
     else [])"
  have w0: "cookie_writes ?s = cookie_writes s @ new0"
    by (simp add: new0_def revoke_step_writes)
  have o0: "\<exists>k names n t.
        k \<in> set (a # ks) \<and> truthy (member_of (consent s) k) \<and>
        \<not> truthy (member_of (JObj prefs) k) \<and>
        map_of (COOKIE_MAP s) k = Some names \<and> n \<in> set names \<and> t \<in> set (tails s) \<and>
        w = expired_cookie n t" if win: "w \<in> set new0" for w
  proof (cases "truthy (member_of (consent s) a) \<and> \<not> truthy (member_of (JObj prefs) a)")
    case True
    then obtain names where m: "map_of (COOKIE_MAP s) a = Some names"
      using win by (cases "map_of (COOKIE_MAP s) a") (simp_all add: new0_def)
    then obtain n t where "n \<in> set names" "t \<in> set (tails s)" "w = expired_cookie n t"
      using win True by (auto simp: new0_def)
    with True m show ?thesis by auto
  next
    case False
    then show ?thesis using win by (simp add: new0_def)
  qed
  obtain new where n: "cookie_writes (fold (revoke_step prefs) ks ?s) = cookie_writes ?s @ new"
    and m: "\<forall>w\<in>set new. \<exists>k names n t.
        k \<in> set ks \<and> truthy (member_of (consent ?s) k) \<and>
        \<not> truthy (member_of (JObj prefs) k) \<and>
        map_of (COOKIE_MAP ?s) k = Some names \<and> n \<in> set names \<and> t \<in> set (tails ?s) \<and>
        w = expired_cookie n t"
    using Cons.IH [of ?s] by blast
  have o1: "\<exists>k names n t.
        k \<in> set (a # ks) \<and> truthy (member_of (consent s) k) \<and>
        \<not> truthy (member_of (JObj prefs) k) \<and>
        map_of (COOKIE_MAP s) k = Some names \<and> n \<in> set names \<and> t \<in> set (tails s) \<and>
        w = expired_cookie n t" if win: "w \<in> set new" for w
  proof -
    obtain k names n t where "k \<in> set ks" "truthy (member_of (consent ?s) k)"
      "\<not> truthy (member_of (JObj prefs) k)" "map_of (COOKIE_MAP ?s) k = Some names"
      "n \<in> set names" "t \<in> set (tails ?s)" "w = expired_cookie n t"
      using m win by blast
    then have "k \<in> set (a # ks) \<and> truthy (member_of (consent s) k) \<and>
        \<not> truthy (member_of (JObj prefs) k) \<and>
        map_of (COOKIE_MAP s) k = Some names \<and> n \<in> set names \<and> t \<in> set (tails s) \<and>
        w = expired_cookie n t"
      by (simp add: only_cookies_fields [OF o] tails_only [OF o])
    then show ?thesis by blast
  qed
  have "cookie_writes (fold (revoke_step prefs) (a # ks) s) = cookie_writes s @ (new0 @ new)"
    by (simp add: n w0)
  moreover have "\<forall>w\<in>set (new0 @ new). \<exists>k names n t.
        k \<in> set (a # ks) \<and> truthy (member_of (consent s) k) \<and>
        \<not> truthy (member_of (JObj prefs) k) \<and>
        map_of (COOKIE_MAP s) k = Some names \<and> n \<in> set names \<and> t \<in> set (tails s) \<and>
        w = expired_cookie n t"
    using o0 o1 by auto
  ultimately show ?case by blast
qed

lemma applyConsent_cookie_writes:
  "cookie_writes (after (applyConsent prefs st))
     = cookie_writes (if truthy (consent st) then delete_revoked prefs st else st) @
       (if returns (applyConsent prefs st) \<and> \<not> primary_writable st
        then [payload_cookie (JObj prefs) st] else [])"
proof -
  define d where "d = (if truthy (consent st) then delete_revoked prefs st else st)"
  define s where "s = after (activate_allowed prefs (d\<lparr>consent := JObj prefs\<rparr>))"
  have o: "only_cookies st d"
    by (simp add: d_def delete_revoked_only only_cookies_refl)
  have f: "cookie_writes s = cookie_writes d" "localStorage s = localStorage st"
    "quota_exceeded s = quota_exceeded st" "CONSENT_VERSION s = CONSENT_VERSION st"
    "now s = now st"
    by (simp_all add: s_def activate_allowed_fields only_cookies_fields [OF o])
  have p: "primary_writable s = primary_writable st"
    by (simp add: primary_writable_def f)
  have y: "saved_payload (JObj prefs) s = saved_payload (JObj prefs) st"
    by (simp add: saved_payload_def f)
  have r: "returns (applyConsent prefs st)
      = returns (activate_allowed prefs (d\<lparr>consent := JObj prefs\<rparr>))"
    by (simp add: applyConsent_def Let_def d_def split: outcome.splits)
  have a: "after (applyConsent prefs st)
      = (if returns (applyConsent prefs st)
         then (save (JObj prefs) s)\<lparr>events := events (save (JObj prefs) s) @ [JObj prefs]\<rparr>
         else s)"
    by (simp add: applyConsent_after Let_def r d_def s_def)
  have w: "cookie_writes (save (JObj prefs) s)
      = cookie_writes d @ (if primary_writable st then [] else [payload_cookie (JObj prefs) st])"
  proof (cases "primary_writable st")
    case True
    then show ?thesis
      using p by (simp add: save_writable f)
  next
    case False
    then have "\<not> primary_writable s" using p by simp
    then show ?thesis
      using False by (simp add: save_not_writable f y payload_cookie_def encodeURIComponent_def)
  qed
  show ?thesis
    unfolding d_def [symmetric] by (simp add: a w f)
qed

text \<open>
  C2, as the code has it. The loop runs over the keys of the registry. For every registry
  key whose value in the old current record is true and whose value in the record passed
  to \<open>applyConsent\<close> is not, the call writes, for each cookie name mapped to the key, an
  expired cookie with each of the three tails (root path; root path and the host; root
  path and the host with a leading dot); afterwards the current record has the new value
  for the key and \<open>hasConsent\<close> is false for it. The call writes no other cookie: every
  cookie it writes is such an expired cookie for such a registry key, or the payload cookie
  that \<open>save\<close> writes when \<open>applyConsent\<close> returns and \<^verbatim>\<open>localStorage\<close> cannot be written.
\<close>

theorem revocation_purges_registered_key:
  "(revoked st prefs k \<and> map_of (COOKIE_MAP st) k = Some names \<and> n \<in> set names \<longrightarrow>
      expired_cookie n ''path=/''
        \<in> set (new_cookie_writes st (after (applyConsent prefs st))) \<and>
      expired_cookie n (''path=/;domain='' @ hostname st)
        \<in> set (new_cookie_writes st (after (applyConsent prefs st))) \<and>
      expired_cookie n (''path=/;domain=.'' @ hostname st)
        \<in> set (new_cookie_writes st (after (applyConsent prefs st)))) \<and>
   (revoked st prefs k \<longrightarrow>
      member_of (consent (after (applyConsent prefs st))) k = member_of (JObj prefs) k \<and>
      hasConsent k (after (applyConsent prefs st)) = False) \<and>
   (\<forall>w\<in>set (new_cookie_writes st (after (applyConsent prefs st))).
      (\<exists>k' names' n' t. revoked st prefs k' \<and> map_of (COOKIE_MAP st) k' = Some names' \<and>
          n' \<in> set names' \<and> t \<in> set (tails st) \<and> w = expired_cookie n' t) \<or>
      (w = payload_cookie (JObj prefs) st \<and> returns (applyConsent prefs st) \<and>
       \<not> primary_writable st))"
proof -
  let ?d = "if truthy (consent st) then delete_revoked prefs st else st"
  define extra where "extra =
    (if returns (applyConsent prefs st) \<and> \<not> primary_writable st
     then [payload_cookie (JObj prefs) st] else [])"
  have a: "cookie_writes (after (applyConsent prefs st)) = cookie_writes ?d @ extra"
    unfolding extra_def by (rule applyConsent_cookie_writes)
  have 1: "expired_cookie n t \<in> set (new_cookie_writes st (after (applyConsent prefs st)))"
    if h: "revoked st prefs k" "map_of (COOKIE_MAP st) k = Some names" "n \<in> set names"
      and t: "t \<in> set (tails st)" for t
  proof -
    have k: "k \<in> set (map fst (CATEGORIES st))" "truthy (member_of (consent st) k)"
      "\<not> truthy (member_of (JObj prefs) k)"
      using h(1) by (simp_all add: revoked_def)
    have c: "truthy (consent st)"
      using k(2) by (rule truthy_member)
    obtain new where n: "cookie_writes (delete_revoked prefs st) = cookie_writes st @ new"
      and m: "expired_cookie n t \<in> set new"
      using revoke_fold_purges [OF k h(2,3) t] by (auto simp: delete_revoked_def)
    have "new_cookie_writes st (after (applyConsent prefs st)) = new @ extra"
      using c by (simp add: new_cookie_writes_def a n)
    then show ?thesis using m by simp
  qed
  have 2: "member_of (consent (after (applyConsent prefs st))) k = member_of (JObj prefs) k \<and>
      hasConsent k (after (applyConsent prefs st)) = False"
    if "revoked st prefs k"
    using that by (simp add: revoked_def hasConsent_def applyConsent_consent)
  have 3: "(\<exists>k' names' n' t. revoked st prefs k' \<and> map_of (COOKIE_MAP st) k' = Some names' \<and>
          n' \<in> set names' \<and> t \<in> set (tails st) \<and> w = expired_cookie n' t) \<or>
      (w = payload_cookie (JObj prefs) st \<and> returns (applyConsent prefs st) \<and>
       \<not> primary_writable st)"
    if w: "w \<in> set (new_cookie_writes st (after (applyConsent prefs st)))" for w
  proof -
    obtain new where n: "cookie_writes ?d = cookie_writes st @ new"
      and m: "\<forall>w\<in>set new. \<exists>k names n t.
        k \<in> set (map fst (CATEGORIES st)) \<and> truthy (member_of (consent st) k) \<and>
        \<not> truthy (member_of (JObj prefs) k) \<and>
        map_of (COOKIE_MAP st) k = Some names \<and> n \<in> set names \<and> t \<in> set (tails st) \<and>
        w = expired_cookie n t"
    proof (cases "truthy (consent st)")
      case True
      then show ?thesis
        using revoke_fold_origin [of prefs "map fst (CATEGORIES st)" st] that
        by (auto simp: delete_revoked_def)
    next
      case False
      then have "cookie_writes ?d = cookie_writes st @ []" by simp
      then show ?thesis using that [of "[]"] by simp
    qed
    have "new_cookie_writes st (after (applyConsent prefs st)) = new @ extra"
      by (simp add: new_cookie_writes_def a n)
    then consider "w \<in> set new" | "w \<in> set extra"
      using w by auto
    then show ?thesis
    proof cases
      case 1
      then show ?thesis using m by (simp add: revoked_def)
    next
      case 2
      then show ?thesis by (simp add: extra_def split: if_splits)
    qed
  qed
  have t: "''path=/'' \<in> set (tails st)" "''path=/;domain='' @ hostname st \<in> set (tails st)"
    "''path=/;domain=.'' @ hostname st \<in> set (tails st)"
    by (simp_all add: tails_def)
  show ?thesis
    using 1 [OF _ _ _ t(1)] 1 [OF _ _ _ t(2)] 1 [OF _ _ _ t(3)] 2 3 by blast
qed

lemma example_visits:
  "consent all_true_visit = JObj all_true"
  "CATEGORIES all_true_visit = builtin_CATEGORIES"
  "COOKIE_MAP all_true_visit = builtin_COOKIE_MAP"
  "hostname all_true_visit = ''example.com''"
  "consent social_visit = JObj social_prefs"
  "CATEGORIES social_visit = builtin_CATEGORIES"
  "COOKIE_MAP social_visit = builtin_COOKIE_MAP @ [(''social'', [''sid''])]"
  "localStorage social_visit
     = Some [STORAGE_KEY \<mapsto> Raw_json (example_payload ''2'' (JObj social_prefs))]"
  "quota_exceeded social_visit = False"
  by (simp_all add: all_true_visit_def social_visit_def init_def no_options_def page_load_def
      load_def load_primary_def localStorage_getItem_def stored_prefs_def example_payload_def
      builtin_VERSION_def Let_def activate_allowed_fields Object_assign_def
      builtin_COOKIE_MAP_def)

theorem revocation_purges_registered_key_witness:
  "revoked all_true_visit necessary_only ''marketing'' \<and>
   ''marketing'' \<in> set (map fst (CATEGORIES all_true_visit)) \<and>
   truthy (member_of (consent all_true_visit) ''marketing'') \<and>
   \<not> truthy (member_of (JObj necessary_only) ''marketing'') \<and>
   map_of (COOKIE_MAP all_true_visit) ''marketing''
     = Some [''_fbp'', ''_fbc'', ''fr'', ''tr'', ''__gads''] \<and>
   ''fr'' \<in> set [''_fbp'', ''_fbc'', ''fr'', ''tr'', ''__gads''] \<and>
   expired_cookie ''fr'' ''path=/''
     \<in> set (new_cookie_writes all_true_visit (after (applyConsent necessary_only all_true_visit))) \<and>
   expired_cookie ''fr'' ''path=/;domain=example.com''
     \<in> set (new_cookie_writes all_true_visit (after (applyConsent necessary_only all_true_visit))) \<and>
   expired_cookie ''fr'' ''path=/;domain=.example.com''
     \<in> set (new_cookie_writes all_true_visit (after (applyConsent necessary_only all_true_visit))) \<and>
   member_of (consent (after (applyConsent necessary_only all_true_visit))) ''marketing''
     = JBool False \<and>
   hasConsent ''marketing'' (after (applyConsent necessary_only all_true_visit)) = False \<and>
   expired_cookie ''fr'' ''path=/'' \<noteq> payload_cookie (JObj necessary_only) all_true_visit \<and>
   (\<exists>k' names' n' t. revoked all_true_visit necessary_only k' \<and>
      map_of (COOKIE_MAP all_true_visit) k' = Some names' \<and> n' \<in> set names' \<and>
      t \<in> set (tails all_true_visit) \<and> expired_cookie ''fr'' ''path=/'' = expired_cookie n' t)"
proof -
  have 1: "''marketing'' \<in> set (map fst (CATEGORIES all_true_visit))"
    by (simp add: example_visits builtin_CATEGORIES_def)
  have 2: "truthy (member_of (consent all_true_visit) ''marketing'')"
    by (simp add: example_visits all_true_def)
  have 3: "\<not> truthy (member_of (JObj necessary_only) ''marketing'')"
    by (simp add: necessary_only_def)
  have 4: "map_of (COOKIE_MAP all_true_visit) ''marketing''
      = Some [''_fbp'', ''_fbc'', ''fr'', ''tr'', ''__gads'']"
    by (simp add: example_visits builtin_COOKIE_MAP_def)
  have 5: "''fr'' \<in> set [''_fbp'', ''_fbc'', ''fr'', ''tr'', ''__gads'']"
    by simp
  have 6: "member_of (JObj necessary_only) ''marketing'' = JBool False"
    by (simp add: necessary_only_def)
  have 0: "revoked all_true_visit necessary_only ''marketing''"
    using 1 2 3 by (simp add: revoked_def)
  have 7: "''path=/;domain='' @ hostname all_true_visit = ''path=/;domain=example.com''"
    "''path=/;domain=.'' @ hostname all_true_visit = ''path=/;domain=.example.com''"
    by (simp_all add: example_visits)
  have 8: "expired_cookie ''fr'' ''path=/''
      \<noteq> payload_cookie (JObj necessary_only) all_true_visit"
    by (simp add: expired_cookie_def payload_cookie_def)
  note T = revocation_purges_registered_key
    [where st = all_true_visit and prefs = necessary_only and k = "''marketing''"
       and names = "[''_fbp'', ''_fbc'', ''fr'', ''tr'', ''__gads'']" and n = "''fr''"]
  note T1 = mp [OF T [THEN conjunct1] conjI [OF 0 conjI [OF 4 5]]]
  note T2 = mp [OF T [THEN conjunct2, THEN conjunct1] 0]
  note T3 = bspec [OF T [THEN conjunct2, THEN conjunct2] T1 [THEN conjunct1]]
  have 9: "\<exists>k' names' n' t. revoked all_true_visit necessary_only k' \<and>
      map_of (COOKIE_MAP all_true_visit) k' = Some names' \<and> n' \<in> set names' \<and>
      t \<in> set (tails all_true_visit) \<and> expired_cookie ''fr'' ''path=/'' = expired_cookie n' t"
    using T3 8 by blast
  note facts = 0 1 2 3 4 5 T1 [THEN conjunct1] T1 [THEN conjunct2, THEN conjunct1, unfolded 7]
    T1 [THEN conjunct2, THEN conjunct2, unfolded 7] T2 [THEN conjunct1, unfolded 6]
    T2 [THEN conjunct2] 8 9
  show ?thesis
    by (intro conjI; fact facts)
qed

text \<open>
  C2 as stated, for every key of the old record, fails for a key that is not in the
  registry: on \<open>social_visit\<close> the old record has \<^verbatim>\<open>social\<close> true, the new record does not,
  the cookie map has a name for \<^verbatim>\<open>social\<close>, and \<open>applyConsent\<close> writes no cookie at all.
\<close>

theorem revocation_purges_counterexample:
  "''social'' \<notin> set (map fst (CATEGORIES social_visit)) \<and>
   truthy (member_of (consent social_visit) ''social'') \<and>
   \<not> truthy (member_of (JObj necessary_only) ''social'') \<and>
   map_of (COOKIE_MAP social_visit) ''social'' = Some [''sid''] \<and>
   returns (applyConsent necessary_only social_visit) \<and>
   new_cookie_writes social_visit (after (applyConsent necessary_only social_visit)) = []"
proof -
  have 1: "''social'' \<notin> set (map fst (CATEGORIES social_visit))"
    by (simp add: example_visits builtin_CATEGORIES_def)
  have 2: "truthy (member_of (consent social_visit) ''social'')"
    by (simp add: example_visits social_prefs_def)
  have 3: "\<not> truthy (member_of (JObj necessary_only) ''social'')"
    by (simp add: necessary_only_def)
  have 4: "map_of (COOKIE_MAP social_visit) ''social'' = Some [''sid'']"
    by (simp add: example_visits builtin_COOKIE_MAP_def)
  have d: "delete_revoked necessary_only social_visit = social_visit"
    by (simp add: delete_revoked_def revoke_step_def example_visits builtin_CATEGORIES_def
        social_prefs_def necessary_only_def)
  have p: "primary_writable social_visit"
    by (simp add: primary_writable_def example_visits)
  have 5: "returns (applyConsent necessary_only social_visit)"
    by (simp add: applyConsent_returns necessary_only_def example_plain)
  have "cookie_writes (after (applyConsent necessary_only social_visit))
      = cookie_writes social_visit"
    by (simp add: applyConsent_cookie_writes d p)
  then have 6: "new_cookie_writes social_visit
      (after (applyConsent necessary_only social_visit)) = []"
    by (simp add: new_cookie_writes_def)
  from 1 2 3 4 5 6 show ?thesis by simp
qed

subsection \<open>Required categories\<close>

lemma fold_update_map_of:
  "map_of (fold (\<lambda>(k, v) obj. AList.update k v obj) es acc) = map_of acc ++ map_of (rev es)"
proof (induction es arbitrary: acc)
  case Nil
  show ?case by simp
next
  case (Cons e es)
  obtain k v where e: "e = (k, v)" by (cases e)
  have "map_of (fold (\<lambda>(k, v) obj. AList.update k v obj) (e # es) acc)
      = map_of (AList.update k v acc) ++ map_of (rev es)"
    by (simp add: e Cons.IH)
  also have "\<dots> = (map_of acc)(k \<mapsto> v) ++ map_of (rev es)"
    by (simp add: update_conv')
  also have "\<dots> = map_of acc ++ map_of (rev (e # es))"
    by (simp add: e map_add_upd_left fun_eq_iff map_add_def split: option.splits)
  finally show ?case .
qed

lemma map_of_rev_distinct:
  "distinct (map fst es) \<Longrightarrow> map_of (rev es) = map_of es"
  by (rule map_of_inject_set [THEN iffD2]) (simp_all add: rev_map [symmetric])

lemma Object_fromEntries_lookup:
  "distinct (map fst es) \<Longrightarrow> map_of (Object_fromEntries es) = map_of es"
  by (simp add: Object_fromEntries_def fold_update_map_of map_of_rev_distinct)

lemma Object_fromEntries_const:
  "k \<in> set ks \<Longrightarrow> map_of (Object_fromEntries (map (\<lambda>k. (k, v)) ks)) k = Some v"
proof -
  assume "k \<in> set ks"
  then have "map_of (rev (map (\<lambda>k. (k, v)) ks)) k = Some v"
    by (induction ks rule: rev_induct) auto
  then show ?thesis
    by (simp add: Object_fromEntries_def fold_update_map_of)
qed

lemma defaultPrefs_lookup:
  assumes "distinct (map fst (CATEGORIES st))"
  shows "map_of (defaultPrefs st) k =
     map_option (\<lambda>c. if truthy (required c) then JBool True else dflt c)
       (map_of (CATEGORIES st) k)"
proof -
  let ?es = "map (\<lambda>(k, v). (k, if truthy (required v) then JBool True else dflt v)) (CATEGORIES st)"
  have m: "map fst ?es = map fst (CATEGORIES st)"
    by (simp add: case_prod_beta comp_def)
  have "map_of ?es k = map_option (\<lambda>c. if truthy (required c) then JBool True else dflt c)
       (map_of (CATEGORIES st) k)"
    by (simp add: map_of_map)
  moreover have "distinct (map fst ?es)"
    using assms by (simp only: m)
  then have "map_of (Object_fromEntries ?es) = map_of ?es"
    by (rule Object_fromEntries_lookup)
  ultimately show ?thesis
    by (simp only: defaultPrefs_def)
qed

lemma Object_assign_distinct:
  "distinct (map fst target) \<Longrightarrow> distinct (map fst (Object_assign target source))"
  unfolding Object_assign_def
  by (induction source arbitrary: target) (auto simp: distinct_update)

lemma init_keeps_registry_distinct:
  "distinct (map fst (CATEGORIES st)) \<Longrightarrow> distinct (map fst (CATEGORIES (after (init opts st))))"
proof -
  assume d: "distinct (map fst (CATEGORIES st))"
  define st2 where "st2 = (case cookieMap opts of
      Some cm \<Rightarrow> (case categories opts of
                   Some cs \<Rightarrow> st\<lparr>CATEGORIES := Object_assign (CATEGORIES st) cs\<rparr>
                 | None \<Rightarrow> st)
               \<lparr>COOKIE_MAP := Object_assign (COOKIE_MAP (case categories opts of
                   Some cs \<Rightarrow> st\<lparr>CATEGORIES := Object_assign (CATEGORIES st) cs\<rparr>
                 | None \<Rightarrow> st)) cm\<rparr>
    | None \<Rightarrow> (case categories opts of
                   Some cs \<Rightarrow> st\<lparr>CATEGORIES := Object_assign (CATEGORIES st) cs\<rparr>
                 | None \<Rightarrow> st))"
  have "distinct (map fst (CATEGORIES st2))"
    using d by (simp add: st2_def Object_assign_distinct split: option.splits)
  moreover have "CATEGORIES (after (init opts st)) = CATEGORIES st2"
    by (simp add: init_def Let_def st2_def [symmetric] activate_allowed_fields
        activateScripts_eq plain_necessary activation_def replace_selected_def
        createBanner_def)
  ultimately show ?thesis by simp
qed

text \<open>
  C1, as the code has it. The registry is an object, so its keys are distinct. For every
  key that the registry marks required, the record that \<open>defaultPrefs\<close> builds has the value
  \<^verbatim>\<open>true\<close>, and so has the current record after \<open>rejectAll\<close> and after \<open>acceptAll\<close>.
  \<open>applyConsent\<close> itself installs the record it is given, unchanged. The record is installed
  before the activation loop runs, so all of this holds whether the call returns or
  throws.
\<close>

theorem required_categories_in_records:
  assumes "distinct (map fst (CATEGORIES st))"
    and "map_of (CATEGORIES st) k = Some c"
    and "truthy (required c)"
  shows "map_of (defaultPrefs st) k = Some (JBool True) \<and>
         member_of (consent (after (rejectAll st))) k = JBool True \<and>
         member_of (consent (after (acceptAll st))) k = JBool True \<and>
         consent (after (applyConsent prefs st)) = JObj prefs"
proof -
  have 1: "map_of (defaultPrefs st) k = Some (JBool True)"
    using assms by (simp add: defaultPrefs_lookup)
  have "k \<in> set (map fst (CATEGORIES st))"
    using assms(2) by (force dest: map_of_SomeD)
  then have 2: "map_of (Object_fromEntries (map (\<lambda>k. (k, JBool True)) (map fst (CATEGORIES st)))) k
      = Some (JBool True)"
    by (rule Object_fromEntries_const)
  show ?thesis
    using 1 2 by (simp add: rejectAll_def acceptAll_def applyConsent_consent)
qed

theorem required_categories_in_records_witness:
  "distinct (map fst (CATEGORIES first_visit)) \<and>
   map_of (CATEGORIES first_visit) ''necessary''
     = Some \<lparr>label = ''Necessary'',
              description = ''Required for the website to function. Cannot be disabled.'',
              required = JBool True, dflt = JBool True\<rparr> \<and>
   truthy (JBool True) \<and>
   map_of (defaultPrefs first_visit) ''necessary'' = Some (JBool True) \<and>
   member_of (consent (after (rejectAll first_visit))) ''necessary'' = JBool True \<and>
   member_of (consent (after (acceptAll first_visit))) ''necessary'' = JBool True \<and>
   consent (after (applyConsent analytics_only first_visit)) = JObj analytics_only"
proof -
  have c: "CATEGORIES first_visit = builtin_CATEGORIES"
    by (simp add: first_visit_def page_load_def)
  have 1: "distinct (map fst (CATEGORIES first_visit))"
    by (simp add: c builtin_CATEGORIES_def)
  have 2: "map_of (CATEGORIES first_visit) ''necessary''
     = Some \<lparr>label = ''Necessary'',
              description = ''Required for the website to function. Cannot be disabled.'',
              required = JBool True, dflt = JBool True\<rparr>"
    by (simp add: c builtin_CATEGORIES_def)
  have 3: "truthy (required \<lparr>label = ''Necessary'',
              description = ''Required for the website to function. Cannot be disabled.'',
              required = JBool True, dflt = JBool True\<rparr>)"
    by simp
  show ?thesis
    using required_categories_in_records [OF 1 2 3, of analytics_only] 1 2
    by simp
qed

text \<open>
  C1 as stated fails for \<open>applyConsent\<close>: given a record in which the required category
  \<^verbatim>\<open>necessary\<close> is \<^verbatim>\<open>false\<close>, it makes that record the current one.
\<close>

theorem required_categories_counterexample:
  "map_of (CATEGORIES first_visit) ''necessary''
     = Some \<lparr>label = ''Necessary'',
              description = ''Required for the website to function. Cannot be disabled.'',
              required = JBool True, dflt = JBool True\<rparr> \<and>
   consent (after (applyConsent [(''necessary'', JBool False)] first_visit))
     = JObj [(''necessary'', JBool False)] \<and>
   member_of (consent (after (applyConsent [(''necessary'', JBool False)] first_visit)))
       ''necessary''
     = JBool False"
  by (simp add: applyConsent_consent first_visit_def page_load_def builtin_CATEGORIES_def)

subsection \<open>Reset\<close>

lemma reset_fields:
  "localStorage (reset st) = map_option (\<lambda>items. items(STORAGE_KEY := None)) (localStorage st)"
  "cookies (reset st) = (cookies st)(STORAGE_KEY := None)"
  "reload_requested (reset st)"
  "consent (reset st) = consent st"
proof -
  define st1 where
    "st1 = (case localStorage_removeItem STORAGE_KEY st of Some s \<Rightarrow> s | None \<Rightarrow> st)"
  define st2 where
    "st2 = document_cookie_assign
             \<lparr>ck_name = STORAGE_KEY, ck_value = Encoded Raw_empty, ck_expires = 0,
              ck_tail = ''path=/''\<rparr> st1"
  have r: "reset st = st2\<lparr>reload_requested := True\<rparr>"
    by (simp add: reset_def location_reload_def st1_def st2_def Let_def)
  have ls1: "localStorage st1 = map_option (\<lambda>items. items(STORAGE_KEY := None)) (localStorage st)"
    and c1: "cookies st1 = cookies st" and o1: "consent st1 = consent st"
    by (cases "localStorage st"; simp add: st1_def localStorage_removeItem_def)+
  show "localStorage (reset st)
      = map_option (\<lambda>items. items(STORAGE_KEY := None)) (localStorage st)"
    by (simp add: r st2_def document_cookie_assign_def ls1)
  show "cookies (reset st) = (cookies st)(STORAGE_KEY := None)"
    by (simp add: r st2_def document_cookie_assign_def c1)
  show "reload_requested (reset st)"
    by (simp add: r)
  show "consent (reset st) = consent st"
    by (simp add: r st2_def document_cookie_assign_def o1)
qed

lemma load_nothing_stored:
  assumes "localStorage s = map_option (\<lambda>items. items(STORAGE_KEY := None)) ls"
    and "cookies s = jar(STORAGE_KEY := None)"
  shows "load s = JNull"
proof -
  have "load_primary s = None"
    using assms(1) by (cases ls) (simp_all add: load_primary_def localStorage_getItem_def)
  moreover have "load_fallback s = None"
    using assms(2) by (simp add: load_fallback_def document_cookie_match_def)
  ultimately show ?thesis
    by (simp add: load_def)
qed

text \<open>
  C4, as the code has it. \<open>reset\<close> removes the item under \<open>STORAGE_KEY\<close> from \<^verbatim>\<open>localStorage\<close>
  (when it is accessible) and the cookie of that name from the jar, and asks the browser
  to reload the page. It does not touch the current record: \<open>consent\<close> is what it was and
  \<open>hasConsent\<close> answers as before. After it \<open>load\<close> finds no record, and on a page that the
  browser loads with the stores as \<open>reset\<close> left them, \<open>init\<close> returns and there is no
  current record.
\<close>

theorem reset_clears_storage:
  "localStorage (reset st) = map_option (\<lambda>items. items(STORAGE_KEY := None)) (localStorage st) \<and>
   cookies (reset st) = (cookies st)(STORAGE_KEY := None) \<and>
   reload_requested (reset st) \<and>
   consent (reset st) = consent st \<and>
   hasConsent k (reset st) = hasConsent k st \<and>
   load (reset st) = JNull \<and>
   returns (init no_options
     (page_load (localStorage (reset st)) full (cookies (reset st)) host t page ld)) \<and>
   consent (after (init no_options
     (page_load (localStorage (reset st)) full (cookies (reset st)) host t page ld))) = JNull \<and>
   hasConsent k (after (init no_options
     (page_load (localStorage (reset st)) full (cookies (reset st)) host t page ld))) = False"
proof -
  have 5: "hasConsent k (reset st) = hasConsent k st"
    by (simp add: hasConsent_def reset_fields)
  have 6: "load (reset st) = JNull"
    by (rule load_nothing_stored) (rule reset_fields)+
  let ?p = "page_load (localStorage (reset st)) full (cookies (reset st)) host t page ld"
  have "load ?p = JNull"
    by (rule load_nothing_stored [of _ "localStorage st" "cookies st"])
      (simp_all add: page_load_def reset_fields)
  then have u: "\<not> truthy (load ?p)" by simp
  have 7: "returns (init no_options ?p)"
    by (rule init_undecided(1) [OF u])
  have 8: "consent (after (init no_options ?p)) = JNull"
    by (simp add: init_undecided(4) [OF u]) (simp add: page_load_def)
  have 9: "hasConsent k (after (init no_options ?p)) = False"
    by (simp add: hasConsent_def 8)
  from reset_fields [of st] 5 6 7 8 9 show ?thesis by simp
qed

text \<open>
  C4 as stated fails for the engine on which \<open>reset\<close> is called: on \<open>all_true_visit\<close> the
  current record allows every category, and after \<open>reset\<close> it is still the current record
  and \<open>hasConsent\<close> still answers true.
\<close>

theorem reset_clears_storage_counterexample:
  "consent (reset all_true_visit) = JObj all_true \<and>
   consent (reset all_true_visit) \<noteq> JNull \<and>
   hasConsent ''analytics'' (reset all_true_visit)"
  by (simp add: reset_fields example_visits hasConsent_def all_true_def)

end
